theory Spec2Isabelle
  imports Main
begin

section \<open>Python values shared by the three source files\<close>

text \<open>
  Exceptions raised by the modelled code. \<open>Exception\<close> carries the argument tuple the
  source passes to the constructor (a single message, or a format string followed by its
  arguments when the source passes them un-interpolated).
\<close>

datatype error =
    RuntimeError string
  | Exception "string list"
  | AssertionError
  | TypeError
  | AttributeError
  | IndexError
  | IOError string
  | ValueError
  | NotADirectoryError string

section \<open>hdlmake/srcfile.py\<close>

subsection \<open>Dependency relations and file objects\<close>

text \<open>
  Modelled from the spec: \<open>DepRelation\<close>, \<open>File\<close> and \<open>DepFile\<close> live in
  \<open>dep_file.py\<close>, which is not part of the sources at hand. A relation is the triple
  (design unit identity, role, kind); a file keeps its relations as an ordered sequence
  and \<open>add_relation\<close> appends to it.
\<close>

datatype direction = PROVIDE | USE

datatype rel_type = ENTITY | PACKAGE | INCLUDE | ARCHITECTURE | MODULE

datatype dep_relation = DepRelation string direction rel_type

text \<open>The classes of \<open>srcfile.py\<close>, one constructor per class.\<close>

datatype file_class =
    VHDLFile | VerilogFile | SVFile | TCLFile
  | UCFFile | XISEFile | CDCFile | XMPFile | PPRFile | XPRFile | BDFile | XCOFile
  | NGCFile | XDCFile | XCFFile | COEFile | MIFFile | RAMFile | VHOFile | BMMFile
  | VEOFile | XCIFile
  | SDCFile
  | LDFFile | LPFFile | PCFFile | EDFFile
  | PDCFile
  | WBGenFile
  | QIPFile | IPFile | QSYSFile | DPFFile | QSFFile | BSFFile | BDFFile | TDFFile
  | GDFFile | SignalTapFile

datatype parser_kind = VHDLParser | VerilogParser | XCIParser

text \<open>
  One record for every file object. Attributes that only \<open>SourceFile\<close> subclasses
  have (\<open>library\<close>, \<open>is_include\<close>, \<open>parser\<close>) are \<open>None\<close>/\<open>False\<close> on plain
  \<open>File\<close> objects.
\<close>

record 'm source_file =
  cls :: file_class
  file_path :: string
  file_module :: 'm
  file_library :: "string option"
  is_include :: bool
  include_dirs :: "string list"
  parser :: "parser_kind option"
  rels :: "dep_relation list"
  is_parsed :: bool

text \<open>
  The operating-system and \<open>path_mod\<close> helpers the code calls. They are not in the
  sources, so they are parameters: \<open>os.path.abspath\<close>, \<open>os.path.join\<close>,
  \<open>os.path.dirname\<close>, the functions \<open>relpath\<close>, \<open>pathsplit\<close>, \<open>svn_parse\<close>,
  \<open>url_parse\<close>, \<open>svn_basename\<close> and \<open>url_basename\<close> of \<open>hdlmake.util.path\<close>,
  \<open>read_file\<close> for the bytes of a file (\<open>None\<close> when it cannot be opened), and
  \<open>str_module\<close> for \<open>str\<close> of a module object given by its address (or of \<open>None\<close>).
\<close>

record path_env =
  abspath :: "string \<Rightarrow> string"
  relpath :: "string \<Rightarrow> string"
  dirname :: "string \<Rightarrow> string"
  join :: "string \<Rightarrow> string \<Rightarrow> string"
  pathsplit :: "string \<Rightarrow> string list"
  read_file :: "string \<Rightarrow> string option"
  svn_parse :: "string \<Rightarrow> string \<times> string option"
  url_parse :: "string \<Rightarrow> string \<times> string option \<times> string option \<times> string option"
  svn_basename :: "string \<Rightarrow> string"
  url_basename :: "string \<Rightarrow> string"
  str_module :: "nat option \<Rightarrow> string"

text \<open>\<open>os.path.isabs\<close> on POSIX: the path starts with a slash.\<close>

definition isabs :: "string \<Rightarrow> bool" where
  "isabs p = (case p of [] \<Rightarrow> False | c # _ \<Rightarrow> c = CHR ''/'')"

text \<open>\<open>str.split(sep)\<close> / \<open>str.rsplit(sep)\<close> without a limit, for a one-character separator.\<close>

fun split_str :: "char \<Rightarrow> string \<Rightarrow> string list" where
  "split_str sep [] = [[]]"
| "split_str sep (c # cs) =
     (if c = sep then [] # split_str sep cs
      else (case split_str sep cs of
              [] \<Rightarrow> [[c]]
            | p # ps \<Rightarrow> (c # p) # ps))"

text \<open>Modelled from the spec: \<open>File.__init__\<close> / \<open>DepFile.__init__\<close> store the path and
  the module and start with no relation and \<open>is_parsed\<close> unset.\<close>

definition File_init :: "file_class \<Rightarrow> string \<Rightarrow> 'm \<Rightarrow> 'm source_file" where
  "File_init c p m =
     \<lparr> cls = c, file_path = p, file_module = m, file_library = None,
       is_include = False, include_dirs = [], parser = None, rels = [],
       is_parsed = False \<rparr>"

definition add_relation :: "dep_relation \<Rightarrow> 'm source_file \<Rightarrow> 'm source_file" where
  "add_relation r f = f\<lparr> rels := rels f @ [r] \<rparr>"

text \<open>\<open>SourceFile.__init__\<close>: a falsy library (\<open>None\<close> or the empty string) becomes
  \<open>"work"\<close>.\<close>

definition SourceFile_init ::
  "file_class \<Rightarrow> string \<Rightarrow> 'm \<Rightarrow> string option \<Rightarrow> 'm source_file" where
  "SourceFile_init c p m lib =
     (File_init c p m)
       \<lparr> file_library :=
           Some (case lib of None \<Rightarrow> ''work''
                 | Some l \<Rightarrow> if l = [] then ''work'' else l) \<rparr>"

definition VHDLFile_init :: "string \<Rightarrow> 'm \<Rightarrow> string option \<Rightarrow> 'm source_file" where
  "VHDLFile_init p m lib = (SourceFile_init VHDLFile p m lib)\<lparr> parser := Some VHDLParser \<rparr>"

text \<open>\<open>VerilogFile.__init__\<close>, shared by \<open>SVFile\<close> (which only changes the class).\<close>

definition VerilogFile_init ::
  "path_env \<Rightarrow> file_class \<Rightarrow> string \<Rightarrow> 'm \<Rightarrow> string option \<Rightarrow> string list option \<Rightarrow> bool
     \<Rightarrow> 'm source_file" where
  "VerilogFile_init os c p m lib incs inc =
     (SourceFile_init c p m lib)
       \<lparr> is_include := inc,
         include_dirs := (case incs of None \<Rightarrow> [] | Some ds \<Rightarrow> ds) @ [relpath os (dirname os p)],
         parser := Some VerilogParser \<rparr>"

definition XCIFile_init :: "string \<Rightarrow> 'm \<Rightarrow> string option \<Rightarrow> 'm source_file" where
  "XCIFile_init p m lib = (SourceFile_init XCIFile p m lib)\<lparr> parser := Some XCIParser \<rparr>"

subsection \<open>Vendor IP files: relations from the file name and a content scan\<close>

text \<open>\<open>s[:-n]\<close> on a Python string: everything but the last \<open>n\<close> characters, the empty string
  when there are fewer.\<close>

definition drop_last :: "nat \<Rightarrow> string \<Rightarrow> string" where
  "drop_last n s = take (length s - n) s"

text \<open>\<open>"%s.%s" % (library, entity)\<close>.\<close>

definition obj_name :: "string \<Rightarrow> string \<Rightarrow> string" where
  "obj_name lib ent = lib @ ''.'' @ ent"

definition IPFile_init :: "path_env \<Rightarrow> string \<Rightarrow> 'm \<Rightarrow> error + 'm source_file" where
  "IPFile_init os p m =
     (case pathsplit os p of
        [] \<Rightarrow> Inl IndexError
      | _ # _ \<Rightarrow>
          let filename = last (pathsplit os p);
              library = drop_last 3 filename;
              entity = drop_last 3 filename;
              f = SourceFile_init IPFile p m (Some library);
              f = add_relation (DepRelation (obj_name library entity) PROVIDE ENTITY) f
          in Inr (f\<lparr> is_parsed := True \<rparr>))"

text \<open>
  The regular expression
  \<^verbatim>\<open><hdlLibraryName>(?P<entity>[\w_\d]+)</hdlLibraryName>\<close>
  compiled as a bytes pattern: \<open>\w\<close> and \<open>\d\<close> are the ASCII classes, so the bracket is
  letters, digits and the underscore.
\<close>

definition word_char :: "char \<Rightarrow> bool" where
  "word_char c =
     (let n = (of_char c :: nat)
      in (97 \<le> n \<and> n \<le> 122) \<or> (65 \<le> n \<and> n \<le> 90) \<or> (48 \<le> n \<and> n \<le> 57) \<or> n = 95)"

definition open_tag :: string where
  "open_tag = ''<hdlLibraryName>''"

definition close_tag :: string where
  "close_tag = ''</hdlLibraryName>''"

fun strip_prefix :: "string \<Rightarrow> string \<Rightarrow> string option" where
  "strip_prefix [] s = Some s"
| "strip_prefix (p # ps) [] = None"
| "strip_prefix (p # ps) (c # cs) = (if p = c then strip_prefix ps cs else None)"

text \<open>
  One match attempt at the head of the input: the opening literal, the greedy run of
  bracket characters (at least one), the closing literal. It returns the group
  \<open>entity\<close> and the input after the match. A shorter run cannot match either: the
  character after it would be a bracket character, and the closing literal starts with
  \<open><\<close>.
\<close>

definition match_child :: "string \<Rightarrow> (string \<times> string) option" where
  "match_child s =
     (case strip_prefix open_tag s of
        None \<Rightarrow> None
      | Some r \<Rightarrow>
          let e = takeWhile word_char r
          in if e = [] then None
             else (case strip_prefix close_tag (dropWhile word_char r) of
                     None \<Rightarrow> None
                   | Some r' \<Rightarrow> Some (e, r')))"

lemma strip_prefix_length:
  "strip_prefix p s = Some r \<Longrightarrow> length s = length p + length r"
  by (induction p s rule: strip_prefix.induct) (auto split: if_splits)

lemma match_child_shorter:
  assumes "match_child s = Some (e, r)"
  shows "length r < length s"
proof -
  from assms obtain r1 r2 where
    a: "strip_prefix open_tag s = Some r1" and
    b: "strip_prefix close_tag (dropWhile word_char r1) = Some r2" and
    c: "r = r2"
    by (auto simp: match_child_def Let_def split: option.splits if_splits)
  have "length (dropWhile word_char r1) \<le> length r1"
    by (simp add: length_dropWhile_le)
  moreover have "length s = length open_tag + length r1"
    using a by (rule strip_prefix_length)
  moreover have "length (dropWhile word_char r1) = length close_tag + length r2"
    using b by (rule strip_prefix_length)
  moreover have "0 < length open_tag"
    by (simp add: open_tag_def)
  ultimately show ?thesis using c by arith
qed

text \<open>\<open>pattern.finditer\<close>: the matches from left to right, each search resuming where the
  previous match ended, one position further after a failed attempt.\<close>

function finditer_child :: "string \<Rightarrow> string list" where
  "finditer_child s =
     (if s = [] then []
      else (case match_child s of
              Some (e, r) \<Rightarrow> e # finditer_child r
            | None \<Rightarrow> finditer_child (tl s)))"
  by pat_completeness auto
termination
  by (relation "measure length") (auto dest: match_child_shorter)

text \<open>
  \<open>QSYSFile.__init__\<close>. The file is opened and mapped only after the two PROVIDE
  relations were added: a file that cannot be opened raises \<open>IOError\<close>, and mapping an
  empty file raises \<open>ValueError\<close>. Inside the loop \<open>library\<close> is the matched entity.
\<close>

definition QSYSFile_init :: "path_env \<Rightarrow> string \<Rightarrow> 'm \<Rightarrow> error + 'm source_file" where
  "QSYSFile_init os p m =
     (case pathsplit os p of
        [] \<Rightarrow> Inl IndexError
      | _ # _ \<Rightarrow>
          let filename = last (pathsplit os p);
              library = drop_last 5 filename;
              entity = drop_last 5 filename;
              f = SourceFile_init QSYSFile p m (Some library);
              f = add_relation (DepRelation (obj_name library entity) PROVIDE ENTITY) f;
              f = add_relation (DepRelation (obj_name library entity) PROVIDE ARCHITECTURE) f
          in (case read_file os p of
                None \<Rightarrow> Inl (IOError p)
              | Some qsys_xml \<Rightarrow>
                  if qsys_xml = [] then Inl ValueError
                  else
                    let f = fold (\<lambda>entity f.
                                add_relation (DepRelation (obj_name entity entity) USE ENTITY) f)
                              (finditer_child qsys_xml) f
                    in Inr (f\<lparr> is_parsed := True \<rparr>)))"

subsection \<open>The extension tables and \<open>create_source_file\<close>\<close>

definition XILINX_FILE_DICT :: "(string \<times> file_class) list" where
  "XILINX_FILE_DICT =
     [(''xise'', XISEFile), (''ise'', XISEFile), (''ngc'', NGCFile), (''ucf'', UCFFile),
      (''cdc'', CDCFile), (''xmp'', XMPFile), (''ppr'', PPRFile), (''xpr'', XPRFile),
      (''bd'', BDFile), (''xco'', XCOFile), (''xdc'', XDCFile), (''xcf'', XCFFile),
      (''coe'', COEFile), (''mif'', MIFFile), (''ram'', RAMFile), (''vho'', VHOFile),
      (''veo'', VEOFile), (''bmm'', BMMFile), (''xci'', XCIFile)]"

definition LATTICE_FILE_DICT :: "(string \<times> file_class) list" where
  "LATTICE_FILE_DICT =
     [(''ldf'', LDFFile), (''lpf'', LPFFile), (''edf'', EDFFile), (''edif'', EDFFile),
      (''edi'', EDFFile), (''edn'', EDFFile), (''pcf'', PCFFile)]"

definition MICROSEMI_FILE_DICT :: "(string \<times> file_class) list" where
  "MICROSEMI_FILE_DICT = [(''pdc'', PDCFile)]"

definition ALTERA_FILE_DICT :: "(string \<times> file_class) list" where
  "ALTERA_FILE_DICT =
     [(''stp'', SignalTapFile), (''qip'', QIPFile), (''ip'', IPFile), (''qsys'', QSYSFile),
      (''dpf'', DPFFile), (''qsf'', QSFFile), (''bsf'', BSFFile), (''bdf'', BDFFile),
      (''tdf'', TDFFile), (''gdf'', GDFFile)]"

text \<open>
  Calling a class taken from one of the tables with \<open>path\<close> and \<open>module\<close> only: the
  classes with a constructor of their own run it, every other class is a plain
  \<open>File\<close>.
\<close>

definition construct :: "path_env \<Rightarrow> file_class \<Rightarrow> string \<Rightarrow> 'm \<Rightarrow> error + 'm source_file" where
  "construct os c p m =
     (if c = XCIFile then Inr (XCIFile_init p m None)
      else if c = IPFile then IPFile_init os p m
      else if c = QSYSFile then QSYSFile_init os p m
      else Inr (File_init c p m))"

definition extension_of :: "string \<Rightarrow> string" where
  "extension_of p = (let tmp = split_str CHR ''.'' p in tmp ! (length tmp - 1))"

definition create_source_file ::
  "path_env \<Rightarrow> string option \<Rightarrow> 'm \<Rightarrow> string option \<Rightarrow> string list option \<Rightarrow> bool
     \<Rightarrow> error + 'm source_file" where
  "create_source_file os path0 m library incs inc =
     (case path0 of
        None \<Rightarrow> Inl (RuntimeError ''Expected a file path, got: None'')
      | Some p0 \<Rightarrow>
          if p0 = [] then Inl (RuntimeError ''Expected a file path, got: '')
          else
            let p = (if \<not> isabs p0 then abspath os p0 else p0);
                extension = extension_of p
            in if extension \<in> set [''vhd'', ''vhdl'', ''vho''] then
                 Inr (VHDLFile_init p m library)
               else if extension \<in> set [''v'', ''vh'', ''vo'', ''vm''] then
                 Inr (VerilogFile_init os VerilogFile p m library incs inc)
               else if extension = ''sv'' \<or> extension = ''svh'' then
                 Inr (VerilogFile_init os SVFile p m library incs inc)
               else if extension = ''wb'' then Inr (File_init WBGenFile p m)
               else if extension = ''tcl'' then Inr (File_init TCLFile p m)
               else if extension = ''sdc'' then Inr (File_init SDCFile p m)
               else (case map_of XILINX_FILE_DICT extension of
                       Some c \<Rightarrow> construct os c p m
                     | None \<Rightarrow>
               (case map_of ALTERA_FILE_DICT extension of
                       Some c \<Rightarrow> construct os c p m
                     | None \<Rightarrow>
               (case map_of LATTICE_FILE_DICT extension of
                       Some c \<Rightarrow> construct os c p m
                     | None \<Rightarrow>
               (case map_of MICROSEMI_FILE_DICT extension of
                       Some c \<Rightarrow> construct os c p m
                     | None \<Rightarrow>
                         Inl (Exception [''Cannot create source file %s, unknown file extension %s'',
                                         p, extension]))))))"

subsection \<open>The extension table and the pattern occurrences, as the specification words them\<close>

text \<open>
  The branches of \<open>create_source_file\<close> that test the extension against literals,
  written as one more table, and the single fixed mapping obtained by consulting the
  tables in the order of the branches.
\<close>

definition HDL_FILE_DICT :: "(string \<times> file_class) list" where
  "HDL_FILE_DICT =
     [(''vhd'', VHDLFile), (''vhdl'', VHDLFile), (''vho'', VHDLFile),
      (''v'', VerilogFile), (''vh'', VerilogFile), (''vo'', VerilogFile), (''vm'', VerilogFile),
      (''sv'', SVFile), (''svh'', SVFile),
      (''wb'', WBGenFile), (''tcl'', TCLFile), (''sdc'', SDCFile)]"

definition extension_table :: "string \<Rightarrow> file_class option" where
  "extension_table ext =
     map_of (HDL_FILE_DICT @ XILINX_FILE_DICT @ ALTERA_FILE_DICT @ LATTICE_FILE_DICT
             @ MICROSEMI_FILE_DICT) ext"

text \<open>Every position of the text at which the pattern matches, from left to right.\<close>

fun occurrences :: "string \<Rightarrow> string list" where
  "occurrences [] = []"
| "occurrences (c # cs) =
     (case match_child (c # cs) of
        Some (e, r) \<Rightarrow> e # occurrences cs
      | None \<Rightarrow> occurrences cs)"

text \<open>A concrete environment for the examples: the working directory is \<open>/work\<close>.\<close>

definition demo_os :: path_env where
  "demo_os =
     \<lparr> abspath = (\<lambda>p. ''/work/'' @ p), relpath = (\<lambda>p. p),
       dirname = (\<lambda>p. ''/work''), join = (\<lambda>a b. a @ ''/'' @ b),
       pathsplit = split_str CHR ''/'',
       read_file = (\<lambda>p. if p = ''/work/soc.qsys''
                         then Some ''<a><hdlLibraryName>uart</hdlLibraryName></a>''
                         else None),
       svn_parse = (\<lambda>u. (u, None)), url_parse = (\<lambda>u. (u, None, None, None)),
       svn_basename = (\<lambda>u. last (split_str CHR ''/'' u)),
       url_basename = (\<lambda>u. last (split_str CHR ''/'' u)),
       str_module = (\<lambda>m. ''module'') \<rparr>"


section \<open>hdlmake/module/core.py\<close>

subsection \<open>The file system and the module objects\<close>

text \<open>
  What \<open>os.path.exists\<close> and \<open>os.listdir\<close> answer for a path: nothing there, a regular
  file (which \<open>os.listdir\<close> refuses with \<open>NotADirectoryError\<close>), or a directory with its
  entries.
\<close>

datatype fsnode = RegularFile | Directory "string list"

type_synonym filesystem = "string \<Rightarrow> fsnode option"

text \<open>
  A module object. Objects live in a heap (a list indexed by address), because several
  descriptors of the same repository can exist at once and each carries its own
  \<open>isfetched\<close> flag; \<open>parent\<close> and the lists in \<open>modules\<close> hold addresses.
  \<open>manifest_dict\<close> keeps the scalar keys of the manifest; \<open>modules\<close> is the dictionary
  from source kind to child objects, in iteration order.
\<close>

record module =
  source :: "string option"
  parent :: "nat option"
  url :: "string option"
  branch :: "string option"
  revision :: "string option"
  path :: "string option"
  isfetched :: bool
  library_overide :: "string option"
  library :: string
  action :: "string option"
  manifest_dict :: "(string \<times> string) list option"
  modules :: "(string \<times> nat list) list"

record module_args =
  args_parent :: "nat option"
  args_url :: string
  args_source :: string
  args_fetchto :: string

text \<open>The object after \<open>ModuleCore.__init__\<close> and \<open>ModuleConfig.__init__\<close> (no child yet).\<close>

definition ModuleCore_init :: module where
  "ModuleCore_init =
     \<lparr> source = None, parent = None, url = None, branch = None, revision = None,
       path = None, isfetched = False, library_overide = None, library = ''work'',
       action = None, manifest_dict = None, modules = [] \<rparr>"

text \<open>\<open>str(x)\<close> for a value that is a string or \<open>None\<close>.\<close>

definition str_opt :: "string option \<Rightarrow> string" where
  "str_opt x = (case x of None \<Rightarrow> ''None'' | Some s \<Rightarrow> s)"

text \<open>\<open>ModuleConfig.basename\<close>; the path helpers raise on \<open>None\<close>.\<close>

definition basename :: "path_env \<Rightarrow> module \<Rightarrow> error + string" where
  "basename os self =
     (case url self of
        None \<Rightarrow> Inl TypeError
      | Some u \<Rightarrow>
          if source self = Some ''svn'' then Inr (svn_basename os u)
          else Inr (url_basename os u))"

text \<open>
  The two logging calls of \<open>init_config\<close> evaluate \<open>self.parent.path\<close>, which raises
  \<open>AttributeError\<close> when the module has no parent; nothing else of logging is modelled.
\<close>

definition log_parent_path :: "module \<Rightarrow> module \<times> error option" where
  "log_parent_path self =
     (case parent self of None \<Rightarrow> (self, Some AttributeError) | Some _ \<Rightarrow> (self, None))"

text \<open>
  \<open>ModuleConfig.init_config\<close>. The result is the object as the call leaves it, and the
  exception if one was raised.
\<close>

definition init_config ::
  "path_env \<Rightarrow> filesystem \<Rightarrow> module_args \<Rightarrow> module \<Rightarrow> module \<times> error option" where
  "init_config os fs args self0 =
     (let self = self0\<lparr> source := Some (args_source args), parent := args_parent args \<rparr>
      in if source self \<noteq> Some ''local'' then
           let self =
                 (if source self = Some ''svn'' then
                    (case svn_parse os (args_url args) of
                       (u, r) \<Rightarrow> self\<lparr> url := Some u, revision := r \<rparr>)
                  else
                    (case url_parse os (args_url args) of
                       (u, b, r, l) \<Rightarrow>
                         self\<lparr> url := Some u, branch := b, revision := r,
                               library_overide := l \<rparr>))
           in (case basename os self of
                 Inl err \<Rightarrow> (self, Some err)
               | Inr bn \<Rightarrow>
                   let bn = (case library_overide self of
                               None \<Rightarrow> bn
                             | Some l \<Rightarrow> if l = [] then bn else bn @ ''-'' @ l);
                       p = relpath os (abspath os (join os (args_fetchto args) bn))
                   in (case fs p of
                         None \<Rightarrow> log_parent_path (self\<lparr> path := Some p, isfetched := False \<rparr>)
                       | Some RegularFile \<Rightarrow> (self, Some (NotADirectoryError p))
                       | Some (Directory []) \<Rightarrow>
                           log_parent_path (self\<lparr> path := Some p, isfetched := False \<rparr>)
                       | Some (Directory (x # xs)) \<Rightarrow>
                           log_parent_path (self\<lparr> path := Some p, isfetched := True \<rparr>)))
         else
           let self = self\<lparr> url := Some (args_url args), branch := None, revision := None \<rparr>
           in if fs (args_url args) = None then
                (self, Some (Exception
                   [''Path to the local module doesn'' @ [CHR 0x27] @ ''t exist:'' @ [CHR 0x0A]
                    @ args_url args @ [CHR 0x0A] @ ''This module was instantiated in: ''
                    @ str_module os (parent self)]))
              else (self\<lparr> path := Some (relpath os (args_url args)), isfetched := True \<rparr>,
                    None))"

text \<open>The path \<open>init_config\<close> resolves for a module that is not local, as the specification
  words it: determined by the url, the library override and the fetch directory.\<close>

definition resolved_path :: "path_env \<Rightarrow> module_args \<Rightarrow> string" where
  "resolved_path os args =
     (if args_source args = ''svn'' then
        relpath os (abspath os (join os (args_fetchto args)
          (svn_basename os (fst (svn_parse os (args_url args))))))
      else
        (case url_parse os (args_url args) of
           (u, b, r, l) \<Rightarrow>
             relpath os (abspath os (join os (args_fetchto args)
               (url_basename os u @
                (case l of None \<Rightarrow> [] | Some lo \<Rightarrow> if lo = [] then [] else ''-'' @ lo))))))"

subsection \<open>Universal manifest directives\<close>

text \<open>\<open>str.lower\<close> on ASCII text.\<close>

definition lower :: "string \<Rightarrow> string" where
  "lower s =
     map (\<lambda>c. let n = (of_char c :: nat)
               in if 65 \<le> n \<and> n \<le> 90 then char_of (n + 32) else c) s"

text \<open>
  \<open>ModuleCore._process_manifest_universal\<close>. The membership tests raise \<open>TypeError\<close> when
  \<open>manifest_dict\<close> is still \<open>None\<close>. The library of the parent is read from the heap.
\<close>

definition process_manifest_action :: "module \<Rightarrow> module \<times> error option" where
  "process_manifest_action self =
     (case manifest_dict self of
        None \<Rightarrow> (self, Some TypeError)
      | Some d \<Rightarrow>
          (case map_of d ''action'' of
             Some a \<Rightarrow> (self\<lparr> action := Some (lower a) \<rparr>, None)
           | None \<Rightarrow> (self, None)))"

definition process_manifest_universal :: "module list \<Rightarrow> module \<Rightarrow> module \<times> error option" where
  "process_manifest_universal heap self =
     (case library_overide self of
        Some lo \<Rightarrow> process_manifest_action (self\<lparr> library := lo \<rparr>)
      | None \<Rightarrow>
          (case manifest_dict self of
             None \<Rightarrow> (self, Some TypeError)
           | Some d \<Rightarrow>
               (case map_of d ''library'' of
                  Some l \<Rightarrow> process_manifest_action (self\<lparr> library := l \<rparr>)
                | None \<Rightarrow>
                    (case parent self of
                       Some p \<Rightarrow> process_manifest_action (self\<lparr> library := library (heap ! p) \<rparr>)
                     | None \<Rightarrow> process_manifest_action self))))"

text \<open>\<open>ModuleCore.process_manifest\<close>: the universal directives, then the empty method of
  \<open>ModuleConfig\<close>.\<close>

definition process_manifest :: "module list \<Rightarrow> module \<Rightarrow> module \<times> error option" where
  "process_manifest heap self = process_manifest_universal heap self"


section \<open>hdlmake/action/commands.py\<close>

subsection \<open>The state the actions work on, and the collaborators\<close>

text \<open>
  The heap of module objects, the pool (\<open>self.manifests\<close>, a list of addresses in
  discovery order), the file system, and three logs of what was asked of the outside
  world: the backend fetch calls (backend kind and module), the shell commands passed to
  \<open>os.system\<close>, and the modules whose directory was removed.
\<close>

record world =
  heap :: "module list"
  manifests :: "nat list"
  fs :: filesystem
  fetch_log :: "(string \<times> nat) list"
  shell_log :: "string list"
  removed :: "nat list"

text \<open>What a \<open>Manifest.py\<close> holds: the scalar keys, the declared sub-modules (source kind
  and urls, in order) and the directory they are fetched to.\<close>

record manifest_file =
  mf_dict :: "(string \<times> string) list"
  mf_modules :: "(string \<times> string list) list"
  mf_fetchto :: string

text \<open>
  The collaborators outside the sources, as scripted fakes: whether a backend succeeds
  on a module, the manifest found in a module directory, and the exit status of a shell
  command.
\<close>

record collab =
  paths :: path_env
  fetch_ok :: "string \<Rightarrow> module \<Rightarrow> bool"
  manifest_at :: "string \<Rightarrow> manifest_file"
  exit_status :: "string \<Rightarrow> int"

text \<open>
  Modelled from the spec: the \<open>fetch\<close> operation of a FetchBackend (\<open>hdlmake.fetch\<close> is
  not in the sources). It checks the module out at its recorded path and returns false on
  any failure; after a successful fetch the module object is marked fetched and its path
  is a non-empty directory. Every call is logged.
\<close>

definition backend_fetch :: "collab \<Rightarrow> string \<Rightarrow> nat \<Rightarrow> world \<Rightarrow> bool \<times> world" where
  "backend_fetch e kind m w =
     (let w = w\<lparr> fetch_log := fetch_log w @ [(kind, m)] \<rparr>;
          self = heap w ! m
      in if fetch_ok e kind self then
           (True,
            w\<lparr> heap := (heap w)[m := self\<lparr> isfetched := True \<rparr>],
               fs := (case path self of
                        None \<Rightarrow> fs w
                      | Some p \<Rightarrow> (fs w)(p \<mapsto> Directory [''Manifest.py''])) \<rparr>)
         else (False, w))"

text \<open>
  Modelled from the spec: \<open>Action._add\<close> (\<open>action.py\<close> is not in the sources) registers a
  module in the pool, avoiding a duplicate registration when a module with the identical
  path is registered already.
\<close>

definition pool_add :: "nat \<Rightarrow> world \<Rightarrow> world" where
  "pool_add m w =
     (if path (heap w ! m) \<in> set (map (\<lambda>k. path (heap w ! k)) (manifests w)) then w
      else w\<lparr> manifests := manifests w @ [m] \<rparr>)"

text \<open>
  Modelled from the spec: \<open>Module.parse_manifest\<close> (the class \<open>Module\<close> is not in the
  sources). It loads the manifest of the module directory, processes the universal
  directives (\<open>process_manifest\<close>, from the sources) and creates one new module object
  per declared sub-module through the constructor (\<open>init_config\<close>, from the sources, on
  a fresh object), with this module as parent; the new objects become the module's
  \<open>modules\<close> and are recorded in the pool, fetched or not (\<open>pool_add\<close>: unless a
  module with the identical path is recorded already). An exception of a step ends the
  call.
\<close>

fun new_modules_of ::
  "collab \<Rightarrow> nat \<Rightarrow> string \<Rightarrow> string \<Rightarrow> string list \<Rightarrow> world \<Rightarrow> (error + nat list) \<times> world" where
  "new_modules_of e m fetchto kind [] w = (Inr [], w)"
| "new_modules_of e m fetchto kind (u # us) w =
     (case init_config (paths e) (fs w)
             \<lparr> args_parent = Some m, args_url = u, args_source = kind,
               args_fetchto = fetchto \<rparr> ModuleCore_init of
        (child, Some err) \<Rightarrow> (Inl err, w)
      | (child, None) \<Rightarrow>
          (case new_modules_of e m fetchto kind us (w\<lparr> heap := heap w @ [child] \<rparr>) of
             (Inl err, w') \<Rightarrow> (Inl err, w')
           | (Inr ids, w') \<Rightarrow> (Inr (length (heap w) # ids), w')))"

fun process_manifest_modules ::
  "collab \<Rightarrow> nat \<Rightarrow> string \<Rightarrow> (string \<times> string list) list \<Rightarrow> world
     \<Rightarrow> (error + (string \<times> nat list) list) \<times> world" where
  "process_manifest_modules e m fetchto [] w = (Inr [], w)"
| "process_manifest_modules e m fetchto ((kind, urls) # rest) w =
     (case new_modules_of e m fetchto kind urls w of
        (Inl err, w') \<Rightarrow> (Inl err, w')
      | (Inr ids, w') \<Rightarrow>
          (case process_manifest_modules e m fetchto rest w' of
             (Inl err, w'') \<Rightarrow> (Inl err, w'')
           | (Inr ms, w'') \<Rightarrow> (Inr ((kind, ids) # ms), w'')))"

definition parse_manifest :: "collab \<Rightarrow> nat \<Rightarrow> world \<Rightarrow> (error + unit) \<times> world" where
  "parse_manifest e m w =
     (case path (heap w ! m) of
        None \<Rightarrow> (Inl TypeError, w)
      | Some p \<Rightarrow>
          let mf = manifest_at e p;
              self = (heap w ! m)\<lparr> manifest_dict := Some (mf_dict mf) \<rparr>
          in (case process_manifest (heap w) self of
                (self, Some err) \<Rightarrow> (Inl err, w\<lparr> heap := (heap w)[m := self] \<rparr>)
              | (self, None) \<Rightarrow>
                  (case process_manifest_modules e m (mf_fetchto mf) (mf_modules mf)
                          (w\<lparr> heap := (heap w)[m := self] \<rparr>) of
                     (Inl err, w') \<Rightarrow> (Inl err, w')
                   | (Inr ms, w') \<Rightarrow>
                       (Inr (),
                        fold pool_add (concat (map snd ms))
                          (w'\<lparr> heap := (heap w')[m := (heap w' ! m)\<lparr> modules := ms \<rparr>] \<rparr>)))))"

text \<open>Modelled from the spec: \<open>Module.submodules\<close>, the already-known child module list.\<close>

definition submodules :: "world \<Rightarrow> nat \<Rightarrow> nat list" where
  "submodules w m = concat (map snd (modules (heap w ! m)))"

subsection \<open>\<open>ActionCore._fetch_all\<close>\<close>

text \<open>The inner function \<open>_fetch_module\<close>.\<close>

definition fetch_module :: "collab \<Rightarrow> nat \<Rightarrow> world \<Rightarrow> (error + nat list) \<times> world" where
  "fetch_module e m w =
     (let src = source (heap w ! m)
      in if src \<noteq> Some ''svn'' \<and> src \<noteq> Some ''git'' \<and> src \<noteq> Some ''gitsm'' then
           (Inl AssertionError, w)
         else
           (case backend_fetch e
                   (if src = Some ''svn'' then ''svn''
                    else if src = Some ''git'' then ''git'' else ''gitsm'') m w of
              (result, w1) \<Rightarrow>
                if \<not> result then
                  (Inl (Exception [''Unable to fetch module %s'', str_opt (url (heap w1 ! m))]),
                   w1)
                else
                  (case parse_manifest e m w1 of
                     (Inl err, w2) \<Rightarrow> (Inl err, w2)
                   | (Inr _, w2) \<Rightarrow> (Inr (concat (map snd (modules (heap w2 ! m)))), w2))))"

text \<open>The \<open>for mod in new_modules\<close> loop: an unfetched module is registered and appended to
  the queue, a fetched one only produces a debug message.\<close>

fun enqueue :: "nat list \<Rightarrow> nat list \<times> world \<Rightarrow> nat list \<times> world" where
  "enqueue [] (q, w) = (q, w)"
| "enqueue (m # ms) (q, w) =
     (if \<not> isfetched (heap w ! m) then enqueue ms (q @ [m], pool_add m w)
      else enqueue ms (q, w))"

text \<open>One pass through the body of the \<open>while\<close> loop, for a non-empty queue:
  \<open>list.pop()\<close> takes the last element.\<close>

definition fetch_step :: "collab \<Rightarrow> nat list \<Rightarrow> world \<Rightarrow> (error + nat list) \<times> world" where
  "fetch_step e q w =
     (let cur_mod = last q;
          rest = butlast q
      in (case (if isfetched (heap w ! cur_mod) then (Inr (submodules w cur_mod), w)
                else fetch_module e cur_mod w) of
            (Inl err, w1) \<Rightarrow> (Inl err, w1)
          | (Inr new_mods, w1) \<Rightarrow>
              (case enqueue new_mods (rest, w1) of (q', w2) \<Rightarrow> (Inr q', w2))))"

text \<open>
  The \<open>while len(fetch_queue) > 0\<close> loop. Nothing bounds the number of passes in general
  (manifests may go on declaring new modules), so the loop carries fuel: \<open>None\<close> means
  the fuel ran out before the queue was empty.
\<close>

fun fetch_loop ::
  "collab \<Rightarrow> nat \<Rightarrow> nat list \<Rightarrow> world \<Rightarrow> ((error + unit) \<times> world) option" where
  "fetch_loop e n [] w = Some (Inr (), w)"
| "fetch_loop e 0 (m # q) w = None"
| "fetch_loop e (Suc n) (m # q) w =
     (case fetch_step e (m # q) w of
        (Inl err, w') \<Rightarrow> Some (Inl err, w')
      | (Inr q', w') \<Rightarrow> fetch_loop e n q' w')"

definition fetch_all :: "collab \<Rightarrow> nat \<Rightarrow> world \<Rightarrow> ((error + unit) \<times> world) option" where
  "fetch_all e n w = fetch_loop e n (manifests w) w"

subsection \<open>\<open>ActionCore.fetch\<close> and its hooks\<close>

text \<open>\<open>os.system(cmd)\<close>: the command is run (logged) and its exit status returned; the
  effect of the command on the file system is not modelled.\<close>

definition os_system :: "collab \<Rightarrow> string \<Rightarrow> world \<Rightarrow> int \<times> world" where
  "os_system e cmd w = (exit_status e cmd, w\<lparr> shell_log := shell_log w @ [cmd] \<rparr>)"

text \<open>The body of the two \<open>for mod in self.manifests\<close> loops of \<open>fetch\<close>, for the key
  \<open>fetch_pre_cmd\<close> or \<open>fetch_post_cmd\<close>; the value returned by \<open>os.system\<close> is dropped.\<close>

definition run_hook :: "collab \<Rightarrow> string \<Rightarrow> nat \<Rightarrow> world \<Rightarrow> world" where
  "run_hook e key m w =
     (let self = heap w ! m
      in if isfetched self \<and> manifest_dict self \<noteq> None then
           (case manifest_dict self of
              None \<Rightarrow> w
            | Some d \<Rightarrow>
                (case map_of d key of
                   Some cmd \<Rightarrow> snd (os_system e cmd w)
                 | None \<Rightarrow> w))
         else w)"

definition run_hooks :: "collab \<Rightarrow> string \<Rightarrow> world \<Rightarrow> world" where
  "run_hooks e key w = fold (run_hook e key) (manifests w) w"

definition fetch :: "collab \<Rightarrow> nat \<Rightarrow> world \<Rightarrow> ((error + unit) \<times> world) option" where
  "fetch e n w =
     (case fetch_all e n (run_hooks e ''fetch_pre_cmd'' w) of
        None \<Rightarrow> None
      | Some (Inl err, w') \<Rightarrow> Some (Inl err, w')
      | Some (Inr u, w') \<Rightarrow> Some (Inr (), run_hooks e ''fetch_post_cmd'' w'))"

subsection \<open>\<open>ActionCore.clean\<close>\<close>

text \<open>
  Modelled from the spec: \<open>Module.remove_dir_from_disk\<close> deletes the directory tree of
  the module (the path itself and everything below it); the call is logged.
\<close>

definition below :: "string \<Rightarrow> string \<Rightarrow> bool" where
  "below p q = (q = p \<or> take (length p + 1) q = p @ ''/'')"

definition remove_dir_from_disk :: "nat \<Rightarrow> world \<Rightarrow> world" where
  "remove_dir_from_disk m w =
     w\<lparr> removed := removed w @ [m],
        fs := (case path (heap w ! m) of
                 None \<Rightarrow> fs w
               | Some p \<Rightarrow> (\<lambda>q. if below p q then None else fs w q)) \<rparr>"

text \<open>The removal loop of \<open>clean\<close>. The message logged before each removal concatenates
  \<open>url\<close> and \<open>path\<close>, which raises \<open>TypeError\<close> when one of them is \<open>None\<close>.\<close>

fun remove_all :: "nat list \<Rightarrow> world \<Rightarrow> error option \<times> world" where
  "remove_all [] w = (None, w)"
| "remove_all (m # ms) w =
     (if url (heap w ! m) = None \<or> path (heap w ! m) = None then (Some TypeError, w)
      else remove_all ms (remove_dir_from_disk m w))"

definition clean :: "world \<Rightarrow> error option \<times> world" where
  "clean w =
     (let remove_list =
            filter (\<lambda>m. source (heap w ! m) \<in> set [Some ''git'', Some ''gitsm'', Some ''svn'']
                        \<and> isfetched (heap w ! m)) (manifests w);
          remove_list = rev remove_list
      in remove_all remove_list w)"


section \<open>Definitions used to state the properties\<close>

text \<open>Processing the manifest of the module at address \<open>i\<close>, the object being updated in
  place.\<close>

definition process_at :: "nat \<Rightarrow> module list \<Rightarrow> module list" where
  "process_at i h = h[i := fst (process_manifest_universal h (h ! i))]"

text \<open>A chain below \<open>p\<close>: each module has the previous one as parent, no library override
  and a manifest without the key \<open>library\<close>.\<close>

fun inherits_chain :: "module list \<Rightarrow> nat \<Rightarrow> nat list \<Rightarrow> bool" where
  "inherits_chain h p [] = True"
| "inherits_chain h p (c # cs) =
     (parent (h ! c) = Some p \<and> library_overide (h ! c) = None
      \<and> (case manifest_dict (h ! c) of None \<Rightarrow> False | Some d \<Rightarrow> map_of d ''library'' = None)
      \<and> inherits_chain h c cs)"


text \<open>The modules \<open>clean\<close> is meant to remove: fetched and under version control.\<close>

definition removable :: "world \<Rightarrow> nat \<Rightarrow> bool" where
  "removable w m =
     (isfetched (heap w ! m) \<and>
      (source (heap w ! m) = Some ''git'' \<or> source (heap w ! m) = Some ''gitsm''
       \<or> source (heap w ! m) = Some ''svn''))"

text \<open>The paths \<open>clean\<close> is meant to delete: the path of a module to remove and
  everything below it.\<close>

definition in_removed_tree :: "world \<Rightarrow> string \<Rightarrow> bool" where
  "in_removed_tree w q =
     (\<exists>m \<in> set (manifests w).
        removable w m \<and> (case path (heap w ! m) of None \<Rightarrow> False | Some p \<Rightarrow> below p q))"

text \<open>Two states that differ in the heap and the pool at most.\<close>

definition heap_only :: "world \<Rightarrow> world \<Rightarrow> bool" where
  "heap_only w w' =
     (fs w' = fs w \<and> fetch_log w' = fetch_log w
      \<and> shell_log w' = shell_log w \<and> removed w' = removed w)"

text \<open>The command a hook loop runs for a module object, if any: the module is fetched, its
  manifest is loaded and holds the key.\<close>

definition hook_cmd :: "string \<Rightarrow> module \<Rightarrow> string option" where
  "hook_cmd key self =
     (if isfetched self then
        (case manifest_dict self of None \<Rightarrow> None | Some d \<Rightarrow> map_of d key)
      else None)"

definition hook_cmds :: "string \<Rightarrow> world \<Rightarrow> string list" where
  "hook_cmds key w = List.map_filter (\<lambda>m. hook_cmd key (heap w ! m)) (manifests w)"

text \<open>A module is registered when the pool holds a module with its path.\<close>

definition registered :: "world \<Rightarrow> nat \<Rightarrow> bool" where
  "registered w m = (path (heap w ! m) \<in> set (map (\<lambda>k. path (heap w ! k)) (manifests w)))"

text \<open>Addresses held by the heap objects point into the heap.\<close>

definition wf_world :: "world \<Rightarrow> bool" where
  "wf_world w = (\<forall>i < length (heap w). \<forall>c \<in> set (submodules w i). c < length (heap w))"

text \<open>No module object was fetched twice so far, and every fetched object is marked.\<close>

definition logged_ok :: "world \<Rightarrow> bool" where
  "logged_ok w =
     (distinct (map snd (fetch_log w)) \<and>
      (\<forall>m \<in> set (map snd (fetch_log w)). m < length (heap w) \<and> isfetched (heap w ! m)))"

text \<open>From \<open>w\<close> to \<open>w'\<close> the heap only grew: the old objects keep their \<open>isfetched\<close>
  flag, every object but \<open>m\<close> keeps its children, and the new objects have none.\<close>

definition grows :: "nat \<Rightarrow> world \<Rightarrow> world \<Rightarrow> bool" where
  "grows m w w' =
     (length (heap w) \<le> length (heap w')
      \<and> (\<forall>i < length (heap w). isfetched (heap w' ! i) = isfetched (heap w ! i))
      \<and> (\<forall>i < length (heap w'). i \<noteq> m \<longrightarrow>
            modules (heap w' ! i) = (if i < length (heap w) then modules (heap w ! i) else [])))"

text \<open>A file system, a heap and a pool for the examples: a local top module and the
  fetched modules \<open>a\<close> and \<open>b\<close> below it, one under the other.\<close>

definition demo_disk :: filesystem where
  "demo_disk =
     [''top'' \<mapsto> Directory [''Manifest.py''],
      ''/work/ip/a'' \<mapsto> Directory [''Manifest.py''],
      ''/work/ip/b'' \<mapsto> Directory [''Manifest.py''],
      ''/work/ip/uart'' \<mapsto> Directory [''Manifest.py'', ''rtl''],
      ''/work/ip/empty'' \<mapsto> Directory [],
      ''sim'' \<mapsto> Directory [''Manifest.py'']]"

definition demo_heap :: "module list" where
  "demo_heap =
     [ModuleCore_init\<lparr> source := Some ''local'', url := Some ''top'', path := Some ''top'',
        isfetched := True, library := ''top_lib'',
        manifest_dict := Some [(''library'', ''top_lib''), (''fetch_pre_cmd'', ''make prepare''),
                               (''fetch_post_cmd'', ''false'')],
        modules := [(''git'', [1])] \<rparr>,
      ModuleCore_init\<lparr> source := Some ''git'', parent := Some 0, url := Some ''git://host/a'',
        path := Some ''/work/ip/a'', isfetched := True,
        manifest_dict := Some [(''action'', ''Simulation'')], modules := [(''git'', [2])] \<rparr>,
      ModuleCore_init\<lparr> source := Some ''git'', parent := Some 1, url := Some ''git://host/b'',
        path := Some ''/work/ip/b'', isfetched := True,
        manifest_dict := Some [] \<rparr>]"

text \<open>Scripted collaborators: every fetch succeeds but that of \<open>git://host/down\<close>; the
  manifest of \<open>/work/ip/lone\<close> declares two sub-modules, every other manifest is empty;
  the command \<open>false\<close> exits with status 1.\<close>

definition demo_collab :: collab where
  "demo_collab =
     \<lparr> paths = demo_os,
       fetch_ok = (\<lambda>k m. url m \<noteq> Some ''git://host/down''),
       manifest_at = (\<lambda>p. if p = ''/work/ip/lone''
                            then \<lparr> mf_dict = [],
                                   mf_modules = [(''git'', [''git://host/uart'', ''git://host/spi''])],
                                   mf_fetchto = ''ip'' \<rparr>
                            else \<lparr> mf_dict = [], mf_modules = [], mf_fetchto = ''ip'' \<rparr>),
       exit_status = (\<lambda>c. if c = ''false'' then 1 else 0) \<rparr>"

definition demo_world :: world where
  "demo_world =
     \<lparr> heap = demo_heap, manifests = [0, 1, 2], fs = demo_disk, fetch_log = [],
       shell_log = [], removed = [] \<rparr>"

text \<open>The same pool with one more module, whose repository cannot be reached.\<close>

definition down_world :: world where
  "down_world =
     demo_world
       \<lparr> heap := demo_heap @
           [ModuleCore_init\<lparr> source := Some ''git'', parent := Some 0,
              url := Some ''git://host/down'', path := Some ''/work/ip/down'' \<rparr>],
         manifests := [0, 1, 2, 3] \<rparr>"

text \<open>A local module kept inside the checkout of the fetched module \<open>a\<close>.\<close>

definition nested_world :: world where
  "nested_world =
     \<lparr> heap =
         [ModuleCore_init\<lparr> source := Some ''local'', url := Some ''top'', path := Some ''top'',
            isfetched := True, manifest_dict := Some [], modules := [(''git'', [1])] \<rparr>,
          ModuleCore_init\<lparr> source := Some ''git'', parent := Some 0,
            url := Some ''git://host/a'', path := Some ''/work/ip/a'', isfetched := True,
            manifest_dict := Some [], modules := [(''local'', [2])] \<rparr>,
          ModuleCore_init\<lparr> source := Some ''local'', parent := Some 1,
            url := Some ''/work/ip/a/sub'', path := Some ''/work/ip/a/sub'', isfetched := True,
            manifest_dict := Some [] \<rparr>],
       manifests = [0, 1, 2],
       fs = demo_disk(''/work/ip/a/sub'' \<mapsto> Directory [''Manifest.py'', ''sub.vhd'']),
       fetch_log = [], shell_log = [], removed = [] \<rparr>"


text \<open>A diamond: the fetched modules \<open>a\<close> and \<open>b\<close> both declare the sub-module \<open>c\<close>, which
  is not on disk; each holds its own object for it, and the pool registered the path once.\<close>

definition diamond_world :: world where
  "diamond_world =
     \<lparr> heap =
         [ModuleCore_init\<lparr> source := Some ''local'', url := Some ''top'', path := Some ''top'',
            isfetched := True, manifest_dict := Some [], modules := [(''git'', [1, 2])] \<rparr>,
          ModuleCore_init\<lparr> source := Some ''git'', parent := Some 0,
            url := Some ''git://host/a'', path := Some ''/work/ip/a'', isfetched := True,
            manifest_dict := Some [], modules := [(''git'', [3])] \<rparr>,
          ModuleCore_init\<lparr> source := Some ''git'', parent := Some 0,
            url := Some ''git://host/b'', path := Some ''/work/ip/b'', isfetched := True,
            manifest_dict := Some [], modules := [(''git'', [4])] \<rparr>,
          ModuleCore_init\<lparr> source := Some ''git'', parent := Some 1,
            url := Some ''git://host/c'', path := Some ''/work/ip/c'' \<rparr>,
          ModuleCore_init\<lparr> source := Some ''git'', parent := Some 2,
            url := Some ''git://host/c'', path := Some ''/work/ip/c'' \<rparr>],
       manifests = [0, 1, 2, 3], fs = demo_disk, fetch_log = [], shell_log = [],
       removed = [] \<rparr>"

text \<open>The queue and the state after at most \<open>n\<close> passes of the loop, for the properties that
  hold at every moment of a run, finished or not.\<close>

fun fetch_passes :: "collab \<Rightarrow> nat \<Rightarrow> nat list \<Rightarrow> world \<Rightarrow> (error + nat list) \<times> world" where
  "fetch_passes e n [] w = (Inr [], w)"
| "fetch_passes e 0 (m # q) w = (Inr (m # q), w)"
| "fetch_passes e (Suc n) (m # q) w =
     (case fetch_step e (m # q) w of
        (Inl err, w') \<Rightarrow> (Inl err, w')
      | (Inr q', w') \<Rightarrow> fetch_passes e n q' w')"

text \<open>The resolved paths the backend was invoked on, in call order.\<close>

definition fetched_paths :: "world \<Rightarrow> string option list" where
  "fetched_paths w = map (\<lambda>km. path (heap w ! snd km)) (fetch_log w)"


section \<open>Properties of \<open>srcfile.py\<close>\<close>

lemma hdl_lookup:
  "map_of HDL_FILE_DICT ext =
     (if ext \<in> set [''vhd'', ''vhdl'', ''vho''] then Some VHDLFile
      else if ext \<in> set [''v'', ''vh'', ''vo'', ''vm''] then Some VerilogFile
      else if ext = ''sv'' \<or> ext = ''svh'' then Some SVFile
      else if ext = ''wb'' then Some WBGenFile
      else if ext = ''tcl'' then Some TCLFile
      else if ext = ''sdc'' then Some SDCFile
      else None)"
  by (simp add: HDL_FILE_DICT_def)

lemma extension_table_eq:
  "extension_table ext =
     (case map_of HDL_FILE_DICT ext of Some c \<Rightarrow> Some c | None \<Rightarrow>
     (case map_of XILINX_FILE_DICT ext of Some c \<Rightarrow> Some c | None \<Rightarrow>
     (case map_of ALTERA_FILE_DICT ext of Some c \<Rightarrow> Some c | None \<Rightarrow>
     (case map_of LATTICE_FILE_DICT ext of Some c \<Rightarrow> Some c | None \<Rightarrow>
      map_of MICROSEMI_FILE_DICT ext))))"
  by (simp add: extension_table_def map_add_def split: option.splits)

lemma create_source_file_unfold:
  assumes "p0 \<noteq> []" and "p = (if \<not> isabs p0 then abspath os p0 else p0)"
    and "ext = extension_of p"
  shows "create_source_file os (Some p0) m lib incs inc =
     (if ext \<in> set [''vhd'', ''vhdl'', ''vho''] then
                 Inr (VHDLFile_init p m lib)
               else if ext \<in> set [''v'', ''vh'', ''vo'', ''vm''] then
                 Inr (VerilogFile_init os VerilogFile p m lib incs inc)
               else if ext = ''sv'' \<or> ext = ''svh'' then
                 Inr (VerilogFile_init os SVFile p m lib incs inc)
               else if ext = ''wb'' then Inr (File_init WBGenFile p m)
               else if ext = ''tcl'' then Inr (File_init TCLFile p m)
               else if ext = ''sdc'' then Inr (File_init SDCFile p m)
               else (case map_of XILINX_FILE_DICT ext of
                       Some c \<Rightarrow> construct os c p m
                     | None \<Rightarrow>
               (case map_of ALTERA_FILE_DICT ext of
                       Some c \<Rightarrow> construct os c p m
                     | None \<Rightarrow>
               (case map_of LATTICE_FILE_DICT ext of
                       Some c \<Rightarrow> construct os c p m
                     | None \<Rightarrow>
               (case map_of MICROSEMI_FILE_DICT ext of
                       Some c \<Rightarrow> construct os c p m
                     | None \<Rightarrow>
                         Inl (Exception [''Cannot create source file %s, unknown file extension %s'',
                                         p, ext]))))))"
  unfolding create_source_file_def Let_def assms(2,3) using assms(1) by simp


lemma cls_add_relation [simp]: "cls (add_relation r f) = cls f"
  by (simp add: add_relation_def)

lemma cls_fold_add_relation [simp]:
  "cls (fold (\<lambda>e. add_relation (g e)) es f) = cls f"
  by (induction es arbitrary: f) simp_all

lemma cls_SourceFile_init [simp]: "cls (SourceFile_init c p m lib) = c"
  by (simp add: SourceFile_init_def File_init_def)

lemma IPFile_init_cls: "IPFile_init os p m = Inr f \<Longrightarrow> cls f = IPFile"
  by (auto simp: IPFile_init_def Let_def split: list.splits)

lemma QSYSFile_init_cls:
  assumes "QSYSFile_init os p m = Inr f"
  shows "cls f = QSYSFile"
proof (cases "pathsplit os p")
  case Nil
  with assms show ?thesis by (simp add: QSYSFile_init_def)
next
  case (Cons a as)
  show ?thesis
  proof (cases "read_file os p")
    case None
    with Cons assms show ?thesis by (simp add: QSYSFile_init_def Let_def)
  next
    case (Some xml)
    show ?thesis
    proof (cases "xml = []")
      case True
      with Some Cons assms show ?thesis by (simp add: QSYSFile_init_def Let_def)
    next
      case False
      with Some Cons assms show ?thesis
        by (simp add: QSYSFile_init_def Let_def) (erule subst, simp)
    qed
  qed
qed

lemma construct_cls: "construct os c p m = Inr f \<Longrightarrow> cls f = c"
  unfolding construct_def
  by (auto simp: XCIFile_init_def File_init_def dest: IPFile_init_cls QSYSFile_init_cls
        split: if_splits)

lemma construct_err: "construct os c p m = Inl err \<Longrightarrow> c = IPFile \<or> c = QSYSFile"
  by (auto simp: construct_def split: if_splits)

lemma construct_sound:
  "(case construct os c p m of Inr f \<Rightarrow> cls f = c | Inl err \<Rightarrow> c = IPFile \<or> c = QSYSFile)"
  by (auto split: sum.splits dest: construct_cls construct_err)

lemma create_source_file_no_path:
  "create_source_file os None m lib incs inc
     = Inl (RuntimeError ''Expected a file path, got: None'')"
  "create_source_file os (Some []) m lib incs inc
     = Inl (RuntimeError ''Expected a file path, got: '')"
  by (simp_all add: create_source_file_def)

text \<open>
  Claim C8. For a non-empty path, \<open>create_source_file\<close> looks only at the extension of
  the absolutised path (the text after its last dot). When the fixed mapping has no entry
  for the extension, the call raises the "unknown file extension" exception; when it has
  one, the object returned has exactly the class the mapping gives, whatever the library,
  the include directories and the include flag are. The only other way out is an exception
  of the \<open>IPFile\<close> or \<open>QSYSFile\<close> constructor itself. (A missing or empty path
  raises \<open>RuntimeError\<close> before any extension is looked at.)
\<close>

theorem create_source_file_by_extension:
  assumes "p0 \<noteq> []" and "p = (if \<not> isabs p0 then abspath os p0 else p0)"
  shows "case extension_table (extension_of p) of
           None \<Rightarrow>
             create_source_file os (Some p0) m lib incs inc =
               Inl (Exception [''Cannot create source file %s, unknown file extension %s'',
                               p, extension_of p])
         | Some c \<Rightarrow>
             (case create_source_file os (Some p0) m lib incs inc of
                Inr f \<Rightarrow> cls f = c
              | Inl err \<Rightarrow> c = IPFile \<or> c = QSYSFile)"
proof -
  define ext where "ext = extension_of p"
  note u = create_source_file_unfold [OF assms ext_def]
  show ?thesis
    unfolding ext_def [symmetric] u extension_table_eq hdl_lookup
    using construct_sound [where os=os and p=p and m=m]
    by (simp add: VHDLFile_init_def VerilogFile_init_def File_init_def split: option.splits)
qed

theorem create_source_file_by_extension_witness:
  "''top.vhd'' \<noteq> [] \<and>
   (case create_source_file demo_os (Some ''top.vhd'') (0::nat) None None False of
      Inr f \<Rightarrow> cls f = VHDLFile | Inl err \<Rightarrow> False) \<and>
   create_source_file demo_os (Some ''notes.txt'') (0::nat) None None False =
     Inl (Exception [''Cannot create source file %s, unknown file extension %s'',
                     ''/work/notes.txt'', ''txt''])"
  using create_source_file_by_extension [of "''top.vhd''" "''/work/top.vhd''" demo_os "0::nat" None None False]
        create_source_file_by_extension [of "''notes.txt''" "''/work/notes.txt''" demo_os "0::nat" None None False]
  by (simp add: demo_os_def isabs_def extension_of_def extension_table_eq hdl_lookup
        XILINX_FILE_DICT_def ALTERA_FILE_DICT_def LATTICE_FILE_DICT_def MICROSEMI_FILE_DICT_def
        split: sum.splits)

text \<open>
  Claim C10. A path with the extension \<open>vho\<close> becomes a \<open>VHDLFile\<close> carrying the VHDL
  parser, although the Xilinx table maps \<open>vho\<close> to \<open>VHOFile\<close>: the literal test comes
  first.
\<close>

theorem vho_is_parsed_as_vhdl:
  assumes "p0 \<noteq> []" and "p = (if \<not> isabs p0 then abspath os p0 else p0)"
    and "extension_of p = ''vho''"
  shows "create_source_file os (Some p0) m lib incs inc = Inr (VHDLFile_init p m lib)
         \<and> cls (VHDLFile_init p m lib) = VHDLFile
         \<and> parser (VHDLFile_init p m lib) = Some VHDLParser
         \<and> map_of XILINX_FILE_DICT ''vho'' = Some VHOFile"
  using create_source_file_unfold [OF assms(1,2) assms(3) [symmetric], of m lib incs inc]
  by (simp add: VHDLFile_init_def XILINX_FILE_DICT_def)


lemma strip_prefix_iff: "strip_prefix p s = Some r \<longleftrightarrow> s = p @ r"
  by (induction p s rule: strip_prefix.induct) auto

lemma word_char_lt [simp]: "\<not> word_char CHR ''<''"
  by (simp add: word_char_def)

lemma takeWhile_word_close:
  "\<forall>c \<in> set e. word_char c \<Longrightarrow> takeWhile word_char (e @ close_tag @ r) = e"
  by (induction e) (simp_all add: close_tag_def)

lemma dropWhile_word_close:
  "\<forall>c \<in> set e. word_char c \<Longrightarrow> dropWhile word_char (e @ close_tag @ r) = close_tag @ r"
  by (induction e) (simp_all add: close_tag_def)

lemma takeWhile_close [simp]: "takeWhile word_char (close_tag @ r) = []"
  by (simp add: close_tag_def)

lemma dropWhile_close [simp]: "dropWhile word_char (close_tag @ r) = close_tag @ r"
  by (simp add: close_tag_def)

lemma match_child_iff:
  "match_child s = Some (e, r) \<longleftrightarrow>
     s = open_tag @ e @ close_tag @ r \<and> e \<noteq> [] \<and> (\<forall>c \<in> set e. word_char c)"
proof
  assume m: "match_child s = Some (e, r)"
  then obtain r1 where
    a: "strip_prefix open_tag s = Some r1" and
    e: "e = takeWhile word_char r1" "e \<noteq> []" and
    b: "strip_prefix close_tag (dropWhile word_char r1) = Some r"
    by (auto simp: match_child_def Let_def split: option.splits if_splits)
  from a have "s = open_tag @ r1" by (simp add: strip_prefix_iff)
  moreover from b have "dropWhile word_char r1 = close_tag @ r" by (simp add: strip_prefix_iff)
  moreover have "r1 = takeWhile word_char r1 @ dropWhile word_char r1" by simp
  moreover have "\<forall>c \<in> set e. word_char c" using e(1) by (auto dest: set_takeWhileD)
  ultimately show "s = open_tag @ e @ close_tag @ r \<and> e \<noteq> [] \<and> (\<forall>c \<in> set e. word_char c)"
    using e by metis
next
  assume h: "s = open_tag @ e @ close_tag @ r \<and> e \<noteq> [] \<and> (\<forall>c \<in> set e. word_char c)"
  then have "strip_prefix open_tag s = Some (e @ close_tag @ r)"
    by (simp add: strip_prefix_iff)
  moreover have "strip_prefix close_tag (close_tag @ r) = Some r"
    by (simp add: strip_prefix_iff)
  ultimately show "match_child s = Some (e, r)"
    using h by (simp add: match_child_def)
qed

lemma match_child_head: "match_child (c # cs) = Some x \<Longrightarrow> c = CHR ''<''"
  by (cases x) (auto simp: match_child_iff open_tag_def)

lemma occurrences_skip:
  "\<forall>c \<in> set xs. c \<noteq> CHR ''<'' \<Longrightarrow> occurrences (xs @ r) = occurrences r"
proof (induction xs)
  case Nil
  then show ?case by simp
next
  case (Cons x xs)
  then have "match_child (x # xs @ r) = None"
    using match_child_head [of x "xs @ r"] by (cases "match_child (x # xs @ r)") auto
  with Cons show ?case by simp
qed

lemma match_child_close: "match_child (close_tag @ r) = None"
  by (simp add: match_child_def close_tag_def open_tag_def)

lemma occurrences_close: "occurrences (close_tag @ r) = occurrences r"
proof -
  have "occurrences (close_tag @ r) = occurrences (tl close_tag @ r)"
    using match_child_close [of r] by (simp add: close_tag_def)
  also have "\<dots> = occurrences r"
    by (rule occurrences_skip) (simp add: close_tag_def)
  finally show ?thesis .
qed

lemma occurrences_after_match:
  assumes "match_child (c # cs) = Some (e, r)"
  shows "occurrences cs = occurrences r"
proof -
  from assms have s: "c # cs = open_tag @ e @ close_tag @ r" and w: "\<forall>c \<in> set e. word_char c"
    by (simp_all add: match_child_iff)
  then have cs: "cs = (tl open_tag @ e) @ close_tag @ r"
    by (simp add: open_tag_def)
  have "\<forall>c \<in> set (tl open_tag @ e). c \<noteq> CHR ''<''"
    using w by (auto simp: open_tag_def)
  then have "occurrences cs = occurrences (close_tag @ r)"
    unfolding cs by (rule occurrences_skip)
  then show ?thesis by (simp add: occurrences_close)
qed

declare finditer_child.simps [simp del]

lemma finditer_child_occurrences: "finditer_child s = occurrences s"
proof (induction s rule: finditer_child.induct)
  case (1 s)
  show ?case
  proof (cases s)
    case Nil
    then show ?thesis by (simp add: finditer_child.simps [of "[]"])
  next
    case (Cons c cs)
    then have ne: "s \<noteq> []" by simp
    show ?thesis
    proof (cases "match_child s")
      case None
      from "1.IH"(1) [OF ne None] have "finditer_child cs = occurrences cs"
        using Cons by simp
      with None Cons show ?thesis
        by (simp add: finditer_child.simps [of "c # cs"])
    next
      case (Some x)
      obtain e r where x: "x = (e, r)" by (cases x)
      from "1.IH"(2) [OF ne Some x [symmetric]] have "finditer_child r = occurrences r" .
      with Some Cons x occurrences_after_match [of c cs e r] show ?thesis
        by (simp add: finditer_child.simps [of "c # cs"])
    qed
  qed
qed


lemma rels_fold_add_relation:
  "rels (fold (\<lambda>e. add_relation (g e)) es f) = rels f @ map g es"
  by (induction es arbitrary: f) (simp_all add: add_relation_def)

lemma drop_last_suffix: "drop_last (length suf) (S @ suf) = S"
  by (simp add: drop_last_def)

lemma IPFile_init_rels:
  assumes "pathsplit os p \<noteq> []" and "S = drop_last 3 (last (pathsplit os p))"
  shows "\<exists>f. IPFile_init os p m = Inr f \<and>
             rels f = [DepRelation (S @ ''.'' @ S) PROVIDE ENTITY]"
  using assms
  by (cases "pathsplit os p")
     (simp_all add: IPFile_init_def Let_def add_relation_def SourceFile_init_def File_init_def
        obj_name_def)

lemma QSYSFile_init_rels:
  assumes "pathsplit os p \<noteq> []" and "S = drop_last 5 (last (pathsplit os p))"
    and "read_file os p = Some xml" and "xml \<noteq> []"
  shows "\<exists>f. QSYSFile_init os p m = Inr f \<and>
             rels f = [DepRelation (S @ ''.'' @ S) PROVIDE ENTITY,
                       DepRelation (S @ ''.'' @ S) PROVIDE ARCHITECTURE]
                      @ map (\<lambda>E. DepRelation (E @ ''.'' @ E) USE ENTITY) (occurrences xml)"
proof (cases "pathsplit os p")
  case Nil
  with assms(1) show ?thesis by simp
next
  case (Cons a as)
  with assms(2-4) show ?thesis
    by (simp add: QSYSFile_init_def Let_def rels_fold_add_relation finditer_child_occurrences
          add_relation_def SourceFile_init_def File_init_def obj_name_def)
qed

text \<open>
  Claim C9. An \<open>IPFile\<close> whose file name is \<open>S.ip\<close> gets the single relation
  PROVIDE entity \<open>S.S\<close>. A \<open>QSYSFile\<close> whose file name is \<open>S.qsys\<close>, when the file can
  be opened and is not empty, gets PROVIDE entity \<open>S.S\<close>, PROVIDE architecture \<open>S.S\<close>
  and then, in text order, one USE entity \<open>E.E\<close> for every position at which
  \<open><hdlLibraryName>E</hdlLibraryName>\<close> occurs in the content. (How the bytes are
  brought into memory is below the level of this model; \<open>match_child_iff\<close> states what
  an occurrence is.)
\<close>

theorem vendor_ip_relations:
  assumes "pathsplit os p \<noteq> []"
  shows "(\<forall>S. last (pathsplit os p) = S @ ''.ip'' \<longrightarrow>
            (\<exists>f. IPFile_init os p m = Inr f \<and>
                 rels f = [DepRelation (S @ ''.'' @ S) PROVIDE ENTITY]))
       \<and> (\<forall>S xml. last (pathsplit os p) = S @ ''.qsys'' \<and> read_file os p = Some xml \<and> xml \<noteq> []
            \<longrightarrow> (\<exists>f. QSYSFile_init os p m = Inr f \<and>
                 rels f = [DepRelation (S @ ''.'' @ S) PROVIDE ENTITY,
                           DepRelation (S @ ''.'' @ S) PROVIDE ARCHITECTURE]
                          @ map (\<lambda>E. DepRelation (E @ ''.'' @ E) USE ENTITY)
                              (occurrences xml)))"
proof (intro conjI allI impI)
  fix S
  assume "last (pathsplit os p) = S @ ''.ip''"
  then have "S = drop_last 3 (last (pathsplit os p))"
    by (simp add: drop_last_def)
  with assms show "\<exists>f. IPFile_init os p m = Inr f \<and>
                 rels f = [DepRelation (S @ ''.'' @ S) PROVIDE ENTITY]"
    by (rule IPFile_init_rels)
next
  fix S xml
  assume h: "last (pathsplit os p) = S @ ''.qsys'' \<and> read_file os p = Some xml \<and> xml \<noteq> []"
  then have "S = drop_last 5 (last (pathsplit os p))"
    by (simp add: drop_last_def)
  with assms h show "\<exists>f. QSYSFile_init os p m = Inr f \<and>
                 rels f = [DepRelation (S @ ''.'' @ S) PROVIDE ENTITY,
                           DepRelation (S @ ''.'' @ S) PROVIDE ARCHITECTURE]
                          @ map (\<lambda>E. DepRelation (E @ ''.'' @ E) USE ENTITY)
                              (occurrences xml)"
    by (intro QSYSFile_init_rels) simp_all
qed

lemma demo_split_qsys: "pathsplit demo_os ''/work/soc.qsys'' = ['''', ''work'', ''soc.qsys'']"
  by (simp add: demo_os_def)

lemma demo_split_ip: "pathsplit demo_os ''/work/pll.ip'' = ['''', ''work'', ''pll.ip'']"
  by (simp add: demo_os_def)

lemma demo_occurrences:
  "occurrences ''<a><hdlLibraryName>uart</hdlLibraryName></a>'' = [''uart'']"
  by (simp add: match_child_def open_tag_def close_tag_def word_char_def)

theorem vendor_ip_relations_witness:
  "pathsplit demo_os ''/work/soc.qsys'' \<noteq> [] \<and> pathsplit demo_os ''/work/pll.ip'' \<noteq> []
   \<and> (\<exists>f. IPFile_init demo_os ''/work/pll.ip'' (0::nat) = Inr f \<and>
           rels f = [DepRelation ''pll.pll'' PROVIDE ENTITY])
   \<and> (\<exists>f. QSYSFile_init demo_os ''/work/soc.qsys'' (0::nat) = Inr f \<and>
           rels f = [DepRelation ''soc.soc'' PROVIDE ENTITY,
                     DepRelation ''soc.soc'' PROVIDE ARCHITECTURE,
                     DepRelation ''uart.uart'' USE ENTITY])"
proof -
  have q: "pathsplit demo_os ''/work/soc.qsys'' \<noteq> []" by (simp add: demo_split_qsys)
  have i: "pathsplit demo_os ''/work/pll.ip'' \<noteq> []" by (simp add: demo_split_ip)
  have r: "read_file demo_os ''/work/soc.qsys'' =
             Some ''<a><hdlLibraryName>uart</hdlLibraryName></a>''"
    by (simp add: demo_os_def)
  from vendor_ip_relations [OF i, of "0::nat"]
  have a: "\<exists>f. IPFile_init demo_os ''/work/pll.ip'' (0::nat) = Inr f \<and>
           rels f = [DepRelation ''pll.pll'' PROVIDE ENTITY]"
    by (simp add: demo_split_ip)
  have b0: "last (pathsplit demo_os ''/work/soc.qsys'') = ''soc'' @ ''.qsys''
            \<and> read_file demo_os ''/work/soc.qsys'' =
                Some ''<a><hdlLibraryName>uart</hdlLibraryName></a>''
            \<and> ''<a><hdlLibraryName>uart</hdlLibraryName></a>'' \<noteq> []"
    by (simp add: demo_split_qsys r)
  from vendor_ip_relations [OF q, of "0::nat", THEN conjunct2, rule_format, OF b0]
  have b: "\<exists>f. QSYSFile_init demo_os ''/work/soc.qsys'' (0::nat) = Inr f \<and>
           rels f = [DepRelation ''soc.soc'' PROVIDE ENTITY,
                     DepRelation ''soc.soc'' PROVIDE ARCHITECTURE,
                     DepRelation ''uart.uart'' USE ENTITY]"
    unfolding demo_occurrences by simp
  from q i a b show ?thesis by blast
qed

theorem vho_is_parsed_as_vhdl_witness:
  "''cores/fifo.vho'' \<noteq> [] \<and> extension_of ''/work/cores/fifo.vho'' = ''vho''
   \<and> create_source_file demo_os (Some ''cores/fifo.vho'') (0::nat) None None False
       = Inr (VHDLFile_init ''/work/cores/fifo.vho'' 0 None)
   \<and> parser (VHDLFile_init ''/work/cores/fifo.vho'' (0::nat) None) = Some VHDLParser"
proof -
  have e: "extension_of ''/work/cores/fifo.vho'' = ''vho''"
    by (simp add: extension_of_def)
  have p: "''/work/cores/fifo.vho'' =
     (if \<not> isabs ''cores/fifo.vho'' then abspath demo_os ''cores/fifo.vho'' else ''cores/fifo.vho'')"
    by (simp add: isabs_def demo_os_def)
  have n: "''cores/fifo.vho'' \<noteq> []" by simp
  from vho_is_parsed_as_vhdl [OF n p e, of "0::nat" None None False] e n
  show ?thesis by simp
qed



section \<open>Properties of \<open>module/core.py\<close>\<close>

lemma init_config_local:
  assumes "args_source args = ''local''"
  shows "init_config os disk args self0 =
     (let self = self0\<lparr> source := Some ''local'', parent := args_parent args,
                         url := Some (args_url args), branch := None, revision := None \<rparr>
      in if disk (args_url args) = None then
           (self, Some (Exception
                   [''Path to the local module doesn'' @ [CHR 0x27] @ ''t exist:'' @ [CHR 0x0A]
                    @ args_url args @ [CHR 0x0A] @ ''This module was instantiated in: ''
                    @ str_module os (args_parent args)]))
         else (self\<lparr> path := Some (relpath os (args_url args)), isfetched := True \<rparr>, None))"
  using assms by (simp add: init_config_def Let_def)

lemma init_config_remote_flag:
  assumes "args_source args \<noteq> ''local''"
  shows "isfetched (fst (init_config os disk args ModuleCore_init)) \<longleftrightarrow>
           (\<exists>x xs. disk (resolved_path os args) = Some (Directory (x # xs)))"
proof (cases "args_source args = ''svn''")
  case True
  obtain u r where sp: "svn_parse os (args_url args) = (u, r)" by (cases "svn_parse os (args_url args)")
  show ?thesis
    using assms True sp
    by (auto simp: init_config_def Let_def resolved_path_def basename_def log_parent_path_def
          ModuleCore_init_def
          split: option.splits fsnode.splits list.splits)
next
  case False
  obtain u b r l where up: "url_parse os (args_url args) = (u, b, r, l)"
    by (cases "url_parse os (args_url args)") auto
  show ?thesis
    using assms False up
    by (auto simp: init_config_def Let_def resolved_path_def basename_def log_parent_path_def
          ModuleCore_init_def
          split: option.splits fsnode.splits list.splits)
qed

lemma init_config_remote_ok:
  assumes "args_source args \<noteq> ''local''" and "args_parent args \<noteq> None"
    and "disk (resolved_path os args) \<noteq> Some RegularFile"
  shows "snd (init_config os disk args ModuleCore_init) = None \<and>
         path (fst (init_config os disk args ModuleCore_init)) = Some (resolved_path os args)"
proof (cases "args_source args = ''svn''")
  case True
  obtain u r where sp: "svn_parse os (args_url args) = (u, r)" by (cases "svn_parse os (args_url args)")
  show ?thesis
    using assms True sp
    by (auto simp: init_config_def Let_def resolved_path_def basename_def log_parent_path_def
          ModuleCore_init_def
          split: option.splits fsnode.splits list.splits)
next
  case False
  obtain u b r l where up: "url_parse os (args_url args) = (u, b, r, l)"
    by (cases "url_parse os (args_url args)") auto
  show ?thesis
    using assms False up
    by (auto simp: init_config_def Let_def resolved_path_def basename_def log_parent_path_def
          ModuleCore_init_def
          split: option.splits fsnode.splits list.splits)
qed

text \<open>
  Claim C4. After \<open>init_config\<close> on a freshly constructed module: a local module
  raises exactly when the declared url does not exist, and is marked fetched otherwise; a
  module that is not local is marked fetched exactly when its resolved path is a
  directory with at least one entry (a missing path, an empty directory and a path that
  is not a directory all leave the flag false). For a module that has a parent and whose
  path is not a regular file the call raises nothing and records the resolved path.
\<close>

theorem init_config_fetch_state:
  "(args_source args = ''local'' \<longrightarrow>
      (snd (init_config os disk args ModuleCore_init) \<noteq> None \<longleftrightarrow> disk (args_url args) = None)
      \<and> (disk (args_url args) \<noteq> None \<longrightarrow>
           isfetched (fst (init_config os disk args ModuleCore_init))))
   \<and> (args_source args \<noteq> ''local'' \<longrightarrow>
      (isfetched (fst (init_config os disk args ModuleCore_init)) \<longleftrightarrow>
         (\<exists>x xs. disk (resolved_path os args) = Some (Directory (x # xs))))
      \<and> (args_parent args \<noteq> None \<and> disk (resolved_path os args) \<noteq> Some RegularFile \<longrightarrow>
           snd (init_config os disk args ModuleCore_init) = None
           \<and> path (fst (init_config os disk args ModuleCore_init))
               = Some (resolved_path os args)))"
proof (cases "args_source args = ''local''")
  case True
  then show ?thesis by (simp add: init_config_local Let_def)
next
  case False
  then show ?thesis
    using init_config_remote_flag [OF False, where os=os and disk=disk]
      init_config_remote_ok [where args=args and os=os and disk=disk]
    by simp
qed

theorem init_config_fetch_state_witness:
  "isfetched (fst (init_config demo_os demo_disk
       \<lparr> args_parent = Some 0, args_url = ''git://host/uart'', args_source = ''git'',
         args_fetchto = ''ip'' \<rparr> ModuleCore_init))
   \<and> snd (init_config demo_os demo_disk
       \<lparr> args_parent = Some 0, args_url = ''git://host/uart'', args_source = ''git'',
         args_fetchto = ''ip'' \<rparr> ModuleCore_init) = None
   \<and> \<not> isfetched (fst (init_config demo_os demo_disk
       \<lparr> args_parent = Some 0, args_url = ''git://host/empty'', args_source = ''git'',
         args_fetchto = ''ip'' \<rparr> ModuleCore_init))
   \<and> \<not> isfetched (fst (init_config demo_os demo_disk
       \<lparr> args_parent = Some 0, args_url = ''git://host/spi'', args_source = ''svn'',
         args_fetchto = ''ip'' \<rparr> ModuleCore_init))
   \<and> isfetched (fst (init_config demo_os demo_disk
       \<lparr> args_parent = None, args_url = ''sim'', args_source = ''local'',
         args_fetchto = ''ip'' \<rparr> ModuleCore_init))
   \<and> snd (init_config demo_os demo_disk
       \<lparr> args_parent = None, args_url = ''nowhere'', args_source = ''local'',
         args_fetchto = ''ip'' \<rparr> ModuleCore_init) \<noteq> None"
  using
    init_config_fetch_state [where os=demo_os and disk=demo_disk and args="\<lparr> args_parent = Some 0, args_url = ''git://host/uart'',
       args_source = ''git'', args_fetchto = ''ip'' \<rparr>"]
    init_config_fetch_state [where os=demo_os and disk=demo_disk and args="\<lparr> args_parent = Some 0, args_url = ''git://host/empty'',
       args_source = ''git'', args_fetchto = ''ip'' \<rparr>"]
    init_config_fetch_state [where os=demo_os and disk=demo_disk and args="\<lparr> args_parent = Some 0, args_url = ''git://host/spi'',
       args_source = ''svn'', args_fetchto = ''ip'' \<rparr>"]
    init_config_fetch_state [where os=demo_os and disk=demo_disk and args="\<lparr> args_parent = None, args_url = ''sim'',
       args_source = ''local'', args_fetchto = ''ip'' \<rparr>"]
    init_config_fetch_state [where os=demo_os and disk=demo_disk and args="\<lparr> args_parent = None, args_url = ''nowhere'',
       args_source = ''local'', args_fetchto = ''ip'' \<rparr>"]
  by (simp add: resolved_path_def demo_os_def demo_disk_def)


lemma process_manifest_action_library [simp]:
  "library (fst (process_manifest_action self)) = library self"
  by (simp add: process_manifest_action_def split: option.splits)

lemma process_manifest_action_ok:
  "manifest_dict self = Some d \<Longrightarrow> snd (process_manifest_action self) = None"
  by (simp add: process_manifest_action_def split: option.splits)

lemma library_precedence:
  assumes "manifest_dict self = Some d"
  shows "snd (process_manifest_universal h self) = None \<and>
         library (fst (process_manifest_universal h self)) =
           (case library_overide self of
              Some lo \<Rightarrow> lo
            | None \<Rightarrow>
                (case map_of d ''library'' of
                   Some l \<Rightarrow> l
                 | None \<Rightarrow>
                     (case parent self of
                        Some p \<Rightarrow> library (h ! p)
                      | None \<Rightarrow> library self)))"
  using assms
  by (simp add: process_manifest_universal_def process_manifest_action_ok split: option.splits)

lemma process_at_other: "x \<noteq> i \<Longrightarrow> process_at i h ! x = h ! x"
  by (simp add: process_at_def)

lemma length_process_at [simp]: "length (process_at i h) = length h"
  by (simp add: process_at_def)

lemma length_fold_process_at [simp]: "length (fold process_at cs h) = length h"
  by (induction cs arbitrary: h) simp_all

lemma fold_process_at_other: "x \<notin> set cs \<Longrightarrow> fold process_at cs h ! x = h ! x"
  by (induction cs arbitrary: h) (simp_all add: process_at_other)

lemma inherits_chain_cong:
  "\<forall>x \<in> set cs. h' ! x = h ! x \<Longrightarrow> inherits_chain h' p cs = inherits_chain h p cs"
  by (induction cs arbitrary: p) simp_all

lemma process_at_inherits:
  assumes "c < length h" and "parent (h ! c) = Some p" and "library_overide (h ! c) = None"
    and "manifest_dict (h ! c) = Some d" and "map_of d ''library'' = None"
  shows "library (process_at c h ! c) = library (h ! p)"
  using assms library_precedence [OF assms(4), of h] by (simp add: process_at_def)

lemma chain_inherits:
  assumes "distinct (p # cs)" and "\<forall>c \<in> set cs. c < length h" and "inherits_chain h p cs"
  shows "\<forall>c \<in> set cs. library (fold process_at cs h ! c) = library (h ! p)"
  using assms
proof (induction cs arbitrary: h p)
  case Nil
  then show ?case by simp
next
  case (Cons c cs)
  define h1 where "h1 = process_at c h"
  from Cons.prems obtain d where
    c: "c < length h" "parent (h ! c) = Some p" "library_overide (h ! c) = None"
       "manifest_dict (h ! c) = Some d" "map_of d ''library'' = None"
    and rest: "inherits_chain h c cs"
    by (auto split: option.splits)
  have lc: "library (h1 ! c) = library (h ! p)"
    unfolding h1_def using c by (rule process_at_inherits)
  have same: "\<forall>x \<in> set cs. h1 ! x = h ! x"
    using Cons.prems(1) by (auto simp: h1_def intro!: process_at_other)
  have i1: "inherits_chain h1 c cs"
    using rest inherits_chain_cong [OF same] by simp
  have i2: "distinct (c # cs)" using Cons.prems(1) by simp
  have i3: "\<forall>x \<in> set cs. x < length h1" using Cons.prems(2) by (simp add: h1_def)
  have ih: "\<forall>x \<in> set cs. library (fold process_at cs h1 ! x) = library (h1 ! c)"
    using i2 i3 i1 by (rule Cons.IH)
  have "c \<notin> set cs" using Cons.prems(1) by simp
  then have "fold process_at cs h1 ! c = h1 ! c" by (rule fold_process_at_other)
  with ih lc show ?case by (simp add: h1_def)
qed


text \<open>
  Claim C5. For a module whose manifest is loaded, \<open>_process_manifest_universal\<close>
  resolves the library by precedence: the override of the url, else the key \<open>library\<close>
  of the manifest, else the library of the parent, else what the object had, which is
  \<open>"work"\<close> for a new module. Down a chain of modules without override and without the
  key, processed parent first, every module ends with the library of the module at the top.
  A source file constructed without a library (\<open>None\<close> or empty) gets \<open>"work"\<close>.
\<close>

theorem library_resolution:
  "(manifest_dict self = Some d \<longrightarrow>
      snd (process_manifest_universal h self) = None \<and>
      library (fst (process_manifest_universal h self)) =
        (case library_overide self of
           Some lo \<Rightarrow> lo
         | None \<Rightarrow>
             (case map_of d ''library'' of
                Some l \<Rightarrow> l
              | None \<Rightarrow>
                  (case parent self of
                     Some p \<Rightarrow> library (h ! p)
                   | None \<Rightarrow> library self))))
   \<and> library ModuleCore_init = ''work''
   \<and> (distinct (p # cs) \<and> (\<forall>c \<in> set cs. c < length h) \<and> inherits_chain h p cs \<longrightarrow>
        (\<forall>c \<in> set cs. library (fold process_at cs h ! c) = library (h ! p)))
   \<and> file_library (SourceFile_init k fp fm None) = Some ''work''
   \<and> file_library (SourceFile_init k fp fm (Some [])) = Some ''work''"
  using library_precedence [of self d h] chain_inherits [of p cs h]
  by (simp add: ModuleCore_init_def SourceFile_init_def File_init_def)

theorem library_resolution_witness:
  "manifest_dict (demo_heap ! 1) = Some [(''action'', ''Simulation'')]
   \<and> library (fst (process_manifest_universal demo_heap (demo_heap ! 1))) = ''top_lib''
   \<and> distinct [0, 1, 2::nat] \<and> 1 < length demo_heap \<and> 2 < length demo_heap
   \<and> inherits_chain demo_heap 0 [1, 2]
   \<and> library (fold process_at [1, 2] demo_heap ! 1) = ''top_lib''
   \<and> library (fold process_at [1, 2] demo_heap ! 2) = ''top_lib''"
proof -
  have a: "manifest_dict (demo_heap ! 1) = Some [(''action'', ''Simulation'')]"
    by (simp add: demo_heap_def ModuleCore_init_def)
  have b: "distinct [0, 1, 2::nat] \<and> (\<forall>c \<in> set [1, 2]. c < length demo_heap)
           \<and> inherits_chain demo_heap 0 [1, 2]"
    by (simp add: demo_heap_def ModuleCore_init_def)
  have l0: "library (demo_heap ! 0) = ''top_lib''"
    by (simp add: demo_heap_def ModuleCore_init_def)
  have p1: "parent (demo_heap ! 1) = Some 0" "library_overide (demo_heap ! 1) = None"
    by (simp_all add: demo_heap_def ModuleCore_init_def)
  note t = library_resolution [where self="demo_heap ! 1" and d="[(''action'', ''Simulation'')]"
      and h=demo_heap and p=0 and cs="[1, 2]" and k=VHDLFile and fp="[]" and fm="0::nat"]
  from t a p1 l0 have c: "library (fst (process_manifest_universal demo_heap (demo_heap ! 1))) = ''top_lib''"
    by simp
  from t b l0 have d: "\<forall>c \<in> set [1, 2]. library (fold process_at [1, 2] demo_heap ! c) = ''top_lib''"
    by simp
  from a b c d show ?thesis by simp
qed



section \<open>Properties of \<open>action/commands.py\<close>\<close>

subsection \<open>The pool\<close>

lemma heap_pool_add [simp]: "heap (pool_add m w) = heap w"
  by (simp add: pool_add_def)

lemma fetch_log_pool_add [simp]: "fetch_log (pool_add m w) = fetch_log w"
  by (simp add: pool_add_def)

lemma fs_pool_add [simp]: "fs (pool_add m w) = fs w"
  by (simp add: pool_add_def)

lemma pool_add_shell_log [simp]: "shell_log (pool_add m w) = shell_log w"
  by (simp add: pool_add_def)

lemma removed_pool_add [simp]: "removed (pool_add m w) = removed w"
  by (simp add: pool_add_def)

lemma pool_add_manifests:
  "manifests (pool_add m w) = manifests w \<or> manifests (pool_add m w) = manifests w @ [m]"
  by (simp add: pool_add_def)

lemma pool_add_registered: "registered (pool_add m w) m"
  by (auto simp: pool_add_def registered_def)

lemma registered_mono:
  "registered w m \<Longrightarrow> heap w' = heap w \<Longrightarrow> manifests w' = manifests w @ xs \<Longrightarrow> registered w' m"
  by (auto simp: registered_def)

lemma fold_pool_add_frame:
  "heap (fold pool_add cs w) = heap w \<and> fs (fold pool_add cs w) = fs w
   \<and> fetch_log (fold pool_add cs w) = fetch_log w
   \<and> shell_log (fold pool_add cs w) = shell_log w
   \<and> removed (fold pool_add cs w) = removed w"
  by (induction cs arbitrary: w) simp_all

lemma fold_pool_add_manifests:
  "\<exists>xs. manifests (fold pool_add cs w) = manifests w @ xs"
proof (induction cs arbitrary: w)
  case Nil
  show ?case by simp
next
  case (Cons c cs)
  from Cons [of "pool_add c w"] obtain xs where
    xs: "manifests (fold pool_add cs (pool_add c w)) = manifests (pool_add c w) @ xs" by auto
  from pool_add_manifests [of c w] obtain ys where "manifests (pool_add c w) = manifests w @ ys"
    by auto
  with xs have "manifests (fold pool_add (c # cs) w) = manifests w @ (ys @ xs)" by simp
  then show ?case by blast
qed

lemma fold_pool_add_registered: "\<forall>c \<in> set cs. registered (fold pool_add cs w) c"
proof (induction cs arbitrary: w)
  case Nil
  show ?case by simp
next
  case (Cons c cs)
  let ?w1 = "pool_add c w"
  from fold_pool_add_manifests [of cs ?w1] obtain xs where
    xs: "manifests (fold pool_add cs ?w1) = manifests ?w1 @ xs" by auto
  have h: "heap (fold pool_add cs ?w1) = heap ?w1" using fold_pool_add_frame [of cs ?w1] by simp
  have "registered (fold pool_add cs ?w1) c"
    using pool_add_registered [of c w] h xs by (rule registered_mono)
  with Cons [of ?w1] show ?case by simp
qed

subsection \<open>\<open>clean\<close>\<close>

lemma heap_remove_dir_from_disk [simp]: "heap (remove_dir_from_disk m w) = heap w"
  by (simp add: remove_dir_from_disk_def)

lemma manifests_remove_dir_from_disk [simp]:
  "manifests (remove_dir_from_disk m w) = manifests w"
  by (simp add: remove_dir_from_disk_def)

lemma removed_remove_dir_from_disk [simp]:
  "removed (remove_dir_from_disk m w) = removed w @ [m]"
  by (simp add: remove_dir_from_disk_def)

lemma fs_remove_dir_from_disk:
  "fs (remove_dir_from_disk m w) =
     (case path (heap w ! m) of
        None \<Rightarrow> fs w
      | Some p \<Rightarrow> (\<lambda>q. if below p q then None else fs w q))"
  by (simp add: remove_dir_from_disk_def)

lemma remove_all_log:
  "\<forall>m \<in> set ms. url (heap w ! m) \<noteq> None \<and> path (heap w ! m) \<noteq> None \<Longrightarrow>
   fst (remove_all ms w) = None \<and> removed (snd (remove_all ms w)) = removed w @ ms
   \<and> heap (snd (remove_all ms w)) = heap w \<and> manifests (snd (remove_all ms w)) = manifests w"
  by (induction ms arbitrary: w) simp_all

lemma remove_all_fs:
  "\<forall>m \<in> set ms. url (heap w ! m) \<noteq> None \<and> path (heap w ! m) \<noteq> None \<Longrightarrow>
   fs (snd (remove_all ms w)) q =
     (if \<exists>m \<in> set ms. (case path (heap w ! m) of None \<Rightarrow> False | Some p \<Rightarrow> below p q)
      then None else fs w q)"
proof (induction ms arbitrary: w)
  case Nil
  show ?case by simp
next
  case (Cons m ms)
  from Cons.prems obtain p where p: "path (heap w ! m) = Some p"
    and u: "url (heap w ! m) \<noteq> None" by auto
  have rest: "\<forall>k \<in> set ms. url (heap (remove_dir_from_disk m w) ! k) \<noteq> None
                \<and> path (heap (remove_dir_from_disk m w) ! k) \<noteq> None"
    using Cons.prems by simp
  have step: "remove_all (m # ms) w = remove_all ms (remove_dir_from_disk m w)"
    using p u by auto
  show ?case
    unfolding step Cons.IH [OF rest] using p by (auto simp: fs_remove_dir_from_disk)
qed

lemma clean_filter:
  "filter (\<lambda>m. source (heap w ! m) \<in> set [Some ''git'', Some ''gitsm'', Some ''svn'']
                        \<and> isfetched (heap w ! m)) ms = filter (removable w) ms"
  by (rule filter_cong) (auto simp: removable_def)

text \<open>
  Claim C6, as amended. When the modules to remove have a url and a path, \<open>clean\<close> raises
  nothing and removes exactly the registered modules that are fetched and of source
  \<open>git\<close>, \<open>gitsm\<close> or \<open>svn\<close>, in the reverse of the order of the pool. On disk, the
  path of each of them and everything below it is gone afterwards, and every other path
  is as before: a module outside that set keeps its directory unless the directory lies
  inside the checkout of a removed module. The pool and the module objects are unchanged.
\<close>

theorem clean_reverse_discovery_order:
  assumes "\<forall>m \<in> set (manifests w).
             removable w m \<longrightarrow> url (heap w ! m) \<noteq> None \<and> path (heap w ! m) \<noteq> None"
  shows "fst (clean w) = None
       \<and> removed (snd (clean w)) = removed w @ rev (filter (removable w) (manifests w))
       \<and> set (drop (length (removed w)) (removed (snd (clean w))))
           = {m \<in> set (manifests w). removable w m}
       \<and> fs (snd (clean w)) = (\<lambda>q. if in_removed_tree w q then None else fs w q)
       \<and> heap (snd (clean w)) = heap w \<and> manifests (snd (clean w)) = manifests w"
proof -
  let ?ms = "rev (filter (removable w) (manifests w))"
  have ok: "\<forall>m \<in> set ?ms. url (heap w ! m) \<noteq> None \<and> path (heap w ! m) \<noteq> None"
    using assms by auto
  have c: "clean w = remove_all ?ms w"
    unfolding clean_def Let_def clean_filter by (rule refl)
  have "fs (snd (clean w)) q = (if in_removed_tree w q then None else fs w q)" for q
  proof -
    have "in_removed_tree w q \<longleftrightarrow>
            (\<exists>m \<in> set ?ms. (case path (heap w ! m) of None \<Rightarrow> False | Some p \<Rightarrow> below p q))"
      by (auto simp: in_removed_tree_def)
    then show ?thesis unfolding c using remove_all_fs [OF ok, of q] by simp
  qed
  then have "fs (snd (clean w)) = (\<lambda>q. if in_removed_tree w q then None else fs w q)"
    by (rule ext)
  with ok c show ?thesis
    using remove_all_log [of ?ms w] by simp
qed

subsection \<open>What each operation leaves alone\<close>

lemma heap_only_refl [simp]: "heap_only w w"
  by (simp add: heap_only_def)

lemma heap_only_heap_update [simp]: "heap_only w (w\<lparr> heap := h \<rparr>)"
  by (simp add: heap_only_def)

lemma heap_only_trans: "heap_only w w1 \<Longrightarrow> heap_only w1 w2 \<Longrightarrow> heap_only w w2"
  by (simp add: heap_only_def)

lemma heap_only_fold_pool_add:
  "heap_only w w2 \<Longrightarrow> heap_only w (fold pool_add cs w2)"
  using fold_pool_add_frame [of cs w2] by (simp add: heap_only_def)

lemma new_modules_of_frame:
  "heap_only w (snd (new_modules_of e m ft k us w))"
proof (induction us arbitrary: w)
  case Nil
  show ?case by simp
next
  case (Cons u us)
  obtain child err where ic: "init_config (paths e) (fs w)
             \<lparr> args_parent = Some m, args_url = u, args_source = k,
               args_fetchto = ft \<rparr> ModuleCore_init = (child, err)"
    by (cases "init_config (paths e) (fs w)
             \<lparr> args_parent = Some m, args_url = u, args_source = k,
               args_fetchto = ft \<rparr> ModuleCore_init")
  show ?case
  proof (cases err)
    case (Some x)
    with ic show ?thesis by simp
  next
    case None
    obtain r w' where r: "new_modules_of e m ft k us (w\<lparr> heap := heap w @ [child] \<rparr>) = (r, w')"
      by (cases "new_modules_of e m ft k us (w\<lparr> heap := heap w @ [child] \<rparr>)")
    with Cons [of "w\<lparr> heap := heap w @ [child] \<rparr>"]
    have "heap_only (w\<lparr> heap := heap w @ [child] \<rparr>) w'" by simp
    then have "heap_only w w'" by (simp add: heap_only_def)
    with ic None r show ?thesis by (cases r) auto
  qed
qed

lemma process_manifest_modules_frame:
  "heap_only w (snd (process_manifest_modules e m ft kus w))"
proof (induction kus arbitrary: w)
  case Nil
  show ?case by simp
next
  case (Cons ku kus)
  obtain k us where ku: "ku = (k, us)" by (cases ku)
  obtain r w1 where r: "new_modules_of e m ft k us w = (r, w1)"
    by (cases "new_modules_of e m ft k us w")
  from new_modules_of_frame [of w e m ft k us] r have w1: "heap_only w w1" by simp
  show ?case
  proof (cases r)
    case (Inl err)
    with ku r w1 show ?thesis by auto
  next
    case (Inr ids)
    obtain r2 w2 where r2: "process_manifest_modules e m ft kus w1 = (r2, w2)"
      by (cases "process_manifest_modules e m ft kus w1")
    from Cons [of w1] r2 have "heap_only w1 w2" by simp
    with w1 have "heap_only w w2" by (rule heap_only_trans)
    with ku r Inr r2 show ?thesis by (cases r2) auto
  qed
qed

lemma parse_manifest_frame:
  "heap_only w (snd (parse_manifest e m w))"
proof (cases "path (heap w ! m)")
  case None
  then show ?thesis by (simp add: parse_manifest_def)
next
  case (Some p)
  define self where "self = (heap w ! m)\<lparr> manifest_dict := Some (mf_dict (manifest_at e p)) \<rparr>"
  obtain self' err where pm: "process_manifest (heap w) self = (self', err)"
    by (cases "process_manifest (heap w) self")
  show ?thesis
  proof (cases err)
    case (Some x)
    with \<open>path (heap w ! m) = Some p\<close> pm show ?thesis
      by (auto simp: parse_manifest_def Let_def self_def)
  next
    case None
    define w0 where "w0 = w\<lparr> heap := (heap w)[m := self'] \<rparr>"
    obtain r w1 where r: "process_manifest_modules e m (mf_fetchto (manifest_at e p))
        (mf_modules (manifest_at e p)) w0 = (r, w1)"
      by (cases "process_manifest_modules e m (mf_fetchto (manifest_at e p))
        (mf_modules (manifest_at e p)) w0")
    from process_manifest_modules_frame [of w0 e m "mf_fetchto (manifest_at e p)"
        "mf_modules (manifest_at e p)"] r
    have "heap_only w0 w1" by simp
    then have w1: "heap_only w w1" by (simp add: w0_def heap_only_def)
    then have "\<And>h. heap_only w (w1\<lparr> heap := h \<rparr>)" by (simp add: heap_only_def)
    then have w2: "\<And>h cs. heap_only w (fold pool_add cs (w1\<lparr> heap := h \<rparr>))"
      by (rule heap_only_fold_pool_add)
    from \<open>path (heap w ! m) = Some p\<close> pm None r w1 w2 show ?thesis
      by (cases r) (auto simp: parse_manifest_def Let_def self_def w0_def)
  qed
qed

lemma backend_fetch_frame:
  "manifests (snd (backend_fetch e k m w)) = manifests w
   \<and> shell_log (snd (backend_fetch e k m w)) = shell_log w
   \<and> removed (snd (backend_fetch e k m w)) = removed w
   \<and> fetch_log (snd (backend_fetch e k m w)) = fetch_log w @ [(k, m)]"
  by (simp add: backend_fetch_def Let_def)

subsection \<open>A failed fetch\<close>

lemma fetch_module_failure:
  assumes "\<not> isfetched (heap w ! m)"
    and "source (heap w ! m) = Some k" and "k = ''svn'' \<or> k = ''git'' \<or> k = ''gitsm''"
    and "\<not> fetch_ok e k (heap w ! m)"
  shows "fetch_module e m w =
           (Inl (Exception [''Unable to fetch module %s'', str_opt (url (heap w ! m))]),
            w\<lparr> fetch_log := fetch_log w @ [(k, m)] \<rparr>)"
proof -
  have b: "backend_fetch e k m w = (False, w\<lparr> fetch_log := fetch_log w @ [(k, m)] \<rparr>)"
    using assms(4) by (simp add: backend_fetch_def Let_def)
  from assms(3) show ?thesis
  proof (elim disjE)
    assume "k = ''svn''"
    with assms(2) b show ?thesis by (simp add: fetch_module_def Let_def)
  next
    assume "k = ''git''"
    with assms(2) b show ?thesis by (simp add: fetch_module_def Let_def)
  next
    assume "k = ''gitsm''"
    with assms(2) b show ?thesis by (simp add: fetch_module_def Let_def)
  qed
qed

text \<open>
  Claim C3. When the module popped from the queue is not fetched, its source is
  \<open>svn\<close>, \<open>git\<close> or \<open>gitsm\<close>, and the backend of that kind returns false, the loop ends
  at once with the exception whose arguments are the message and the url of the module.
  The state is the one before the pass but for the single logged backend call: the call
  was made once, and nothing else of the queue was processed.
\<close>

theorem fetch_failure_is_fatal:
  assumes "q \<noteq> []" and "\<not> isfetched (heap w ! last q)"
    and "source (heap w ! last q) = Some k" and "k = ''svn'' \<or> k = ''git'' \<or> k = ''gitsm''"
    and "\<not> fetch_ok e k (heap w ! last q)"
  shows "fetch_loop e (Suc n) q w =
           Some (Inl (Exception [''Unable to fetch module %s'', str_opt (url (heap w ! last q))]),
                 w\<lparr> fetch_log := fetch_log w @ [(k, last q)] \<rparr>)"
proof -
  from assms(1) obtain m q' where q: "q = m # q'" by (cases q) auto
  have "fetch_step e q w =
          (Inl (Exception [''Unable to fetch module %s'', str_opt (url (heap w ! last q))]),
           w\<lparr> fetch_log := fetch_log w @ [(k, last q)] \<rparr>)"
    using assms(2) fetch_module_failure [OF assms(2-5)]
    by (simp add: fetch_step_def Let_def)
  then show ?thesis unfolding q by simp
qed

subsection \<open>The exit status of a hook is never looked at\<close>

lemma new_modules_of_status [simp]:
  "new_modules_of (e\<lparr> exit_status := s \<rparr>) m ft k us w = new_modules_of e m ft k us w"
  by (induction us arbitrary: w) simp_all

lemma process_manifest_modules_status [simp]:
  "process_manifest_modules (e\<lparr> exit_status := s \<rparr>) m ft kus w
     = process_manifest_modules e m ft kus w"
  by (induction kus arbitrary: w) (auto split: prod.splits sum.splits)

lemma parse_manifest_status [simp]:
  "parse_manifest (e\<lparr> exit_status := s \<rparr>) m w = parse_manifest e m w"
  by (simp add: parse_manifest_def Let_def split: option.splits prod.splits sum.splits)

lemma backend_fetch_status [simp]:
  "backend_fetch (e\<lparr> exit_status := s \<rparr>) k m w = backend_fetch e k m w"
  by (simp add: backend_fetch_def)

lemma fetch_module_status [simp]:
  "fetch_module (e\<lparr> exit_status := s \<rparr>) m w = fetch_module e m w"
  by (simp add: fetch_module_def Let_def split: prod.splits sum.splits)

lemma fetch_step_status [simp]:
  "fetch_step (e\<lparr> exit_status := s \<rparr>) q w = fetch_step e q w"
  by (simp add: fetch_step_def Let_def split: prod.splits sum.splits)

lemma fetch_loop_status [simp]:
  "fetch_loop (e\<lparr> exit_status := s \<rparr>) n q w = fetch_loop e n q w"
  by (induction e n q w rule: fetch_loop.induct) (simp_all split: prod.splits sum.splits)

lemma run_hook_status [simp]:
  "run_hook (e\<lparr> exit_status := s \<rparr>) key m w = run_hook e key m w"
  by (simp add: run_hook_def os_system_def Let_def split: option.splits)

lemma run_hooks_status [simp]:
  "run_hooks (e\<lparr> exit_status := s \<rparr>) key w = run_hooks e key w"
proof -
  have "run_hook (e\<lparr> exit_status := s \<rparr>) key = run_hook e key" by (rule ext)+ simp
  then show ?thesis by (simp add: run_hooks_def)
qed

lemma fetch_status: "fetch (e\<lparr> exit_status := s \<rparr>) n w = fetch e n w"
  by (simp add: fetch_def fetch_all_def split: option.splits prod.splits sum.splits)

lemma run_hook_eq:
  "run_hook e key m w =
     (case hook_cmd key (heap w ! m) of
        None \<Rightarrow> w
      | Some cmd \<Rightarrow> w\<lparr> shell_log := shell_log w @ [cmd] \<rparr>)"
  by (simp add: run_hook_def hook_cmd_def os_system_def Let_def split: option.splits)

lemma fold_run_hook:
  "fold (run_hook e key) ms w
     = w\<lparr> shell_log := shell_log w @ List.map_filter (\<lambda>m. hook_cmd key (heap w ! m)) ms \<rparr>"
proof (induction ms arbitrary: w)
  case Nil
  show ?case by (simp add: List.map_filter_simps)
next
  case (Cons m ms)
  show ?case
  proof (cases "hook_cmd key (heap w ! m)")
    case None
    then have step: "run_hook e key m w = w" by (simp add: run_hook_eq)
    have "fold (run_hook e key) (m # ms) w = fold (run_hook e key) ms w"
      by (simp add: step)
    with None show ?thesis by (simp add: Cons List.map_filter_simps)
  next
    case (Some cmd)
    then have step: "run_hook e key m w = w\<lparr> shell_log := shell_log w @ [cmd] \<rparr>"
      by (simp add: run_hook_eq)
    have "fold (run_hook e key) (m # ms) w
            = fold (run_hook e key) ms (w\<lparr> shell_log := shell_log w @ [cmd] \<rparr>)"
      by (simp add: step)
    with Some show ?thesis by (simp add: Cons List.map_filter_simps)
  qed
qed

lemma run_hooks_eq: "run_hooks e key w = w\<lparr> shell_log := shell_log w @ hook_cmds key w \<rparr>"
  by (simp add: run_hooks_def hook_cmds_def fold_run_hook)

subsection \<open>The fetch loop runs no shell command\<close>

lemma fetch_module_shell_log: "shell_log (snd (fetch_module e m w)) = shell_log w"
proof -
  let ?k = "if source (heap w ! m) = Some ''svn'' then ''svn''
            else if source (heap w ! m) = Some ''git'' then ''git'' else ''gitsm''"
  obtain b w1 where b: "backend_fetch e ?k m w = (b, w1)"
    by (cases "backend_fetch e ?k m w")
  with backend_fetch_frame [of e ?k m w] have w1: "shell_log w1 = shell_log w" by simp
  obtain r w2 where r: "parse_manifest e m w1 = (r, w2)" by (cases "parse_manifest e m w1")
  with parse_manifest_frame [of w1 e m] w1 have "shell_log w2 = shell_log w"
    by (simp add: heap_only_def)
  with b r w1 show ?thesis
    by (cases r) (simp_all add: fetch_module_def Let_def)
qed

lemma enqueue_shell_log: "shell_log (snd (enqueue ms (q, w))) = shell_log w"
  by (induction ms arbitrary: q w) simp_all

lemma fetch_step_shell_log: "shell_log (snd (fetch_step e q w)) = shell_log w"
proof (cases "isfetched (heap w ! last q)")
  case True
  obtain q' w' where "enqueue (submodules w (last q)) (butlast q, w) = (q', w')"
    by (cases "enqueue (submodules w (last q)) (butlast q, w)")
  with True enqueue_shell_log [of "submodules w (last q)" "butlast q" w] show ?thesis
    by (simp add: fetch_step_def Let_def)
next
  case False
  obtain r w1 where r: "fetch_module e (last q) w = (r, w1)"
    by (cases "fetch_module e (last q) w")
  with fetch_module_shell_log [of e "last q" w] have w1: "shell_log w1 = shell_log w" by simp
  show ?thesis
  proof (cases r)
    case (Inl err)
    with False r w1 show ?thesis by (simp add: fetch_step_def Let_def)
  next
    case (Inr new)
    obtain q' w' where "enqueue new (butlast q, w1) = (q', w')"
      by (cases "enqueue new (butlast q, w1)")
    with False r Inr w1 enqueue_shell_log [of new "butlast q" w1] show ?thesis
      by (simp add: fetch_step_def Let_def)
  qed
qed

lemma fetch_loop_shell_log:
  "fetch_loop e n q w = Some (r, w') \<Longrightarrow> shell_log w' = shell_log w"
proof (induction e n q w rule: fetch_loop.induct)
  case (1 e n w)
  then show ?case by simp
next
  case (2 e m q w)
  then show ?case by simp
next
  case (3 e n m q w)
  obtain r1 w1 where s: "fetch_step e (m # q) w = (r1, w1)"
    by (cases "fetch_step e (m # q) w")
  with fetch_step_shell_log [of e "m # q" w] have w1: "shell_log w1 = shell_log w" by simp
  show ?case
  proof (cases r1)
    case (Inl err)
    with 3(2) s w1 show ?thesis by auto
  next
    case (Inr q')
    with 3(2) s have "fetch_loop e n q' w1 = Some (r, w')" by simp
    with 3(1) [OF s [symmetric] Inr] w1 show ?thesis by simp
  qed
qed

text \<open>
  Claim C7. The exit status of the hooks has no influence on \<open>fetch\<close>. A hook loop runs,
  in pool order, one command per registered module that is fetched and whose loaded
  manifest holds the key, and changes nothing else. When \<open>fetch\<close> returns, the commands
  run are those of \<open>fetch_pre_cmd\<close> on the pool before the fetch loop followed by those
  of \<open>fetch_post_cmd\<close> on the pool after it; when the fetch loop raises, only the
  \<open>fetch_pre_cmd\<close> commands were run.
\<close>

theorem fetch_hooks_fire_and_forget:
  "fetch (e\<lparr> exit_status := s \<rparr>) n w = fetch e n w
   \<and> run_hooks e key w = w\<lparr> shell_log := shell_log w @ hook_cmds key w \<rparr>
   \<and> (fetch e n w = Some (Inr u, w') \<longrightarrow>
        (\<exists>w2. fetch_all e n (run_hooks e ''fetch_pre_cmd'' w) = Some (Inr (), w2)
              \<and> w' = w2\<lparr> shell_log := shell_log w @ hook_cmds ''fetch_pre_cmd'' w
                                        @ hook_cmds ''fetch_post_cmd'' w2 \<rparr>))
   \<and> (fetch e n w = Some (Inl err, w') \<longrightarrow>
        shell_log w' = shell_log w @ hook_cmds ''fetch_pre_cmd'' w)"
proof (intro conjI impI)
  show "fetch (e\<lparr> exit_status := s \<rparr>) n w = fetch e n w" by (rule fetch_status)
  show "run_hooks e key w = w\<lparr> shell_log := shell_log w @ hook_cmds key w \<rparr>"
    by (rule run_hooks_eq)
next
  assume f: "fetch e n w = Some (Inr u, w')"
  then obtain w2 where a: "fetch_all e n (run_hooks e ''fetch_pre_cmd'' w) = Some (Inr (), w2)"
    and w': "w' = run_hooks e ''fetch_post_cmd'' w2"
    by (auto simp: fetch_def split: option.splits prod.splits sum.splits)
  from a have "shell_log w2 = shell_log (run_hooks e ''fetch_pre_cmd'' w)"
    unfolding fetch_all_def by (rule fetch_loop_shell_log)
  then have "shell_log w2 = shell_log w @ hook_cmds ''fetch_pre_cmd'' w"
    by (simp add: run_hooks_eq)
  with w' have "w' = w2\<lparr> shell_log := shell_log w @ hook_cmds ''fetch_pre_cmd'' w
                                        @ hook_cmds ''fetch_post_cmd'' w2 \<rparr>"
    by (simp add: run_hooks_eq)
  with a show "\<exists>w2. fetch_all e n (run_hooks e ''fetch_pre_cmd'' w) = Some (Inr (), w2)
              \<and> w' = w2\<lparr> shell_log := shell_log w @ hook_cmds ''fetch_pre_cmd'' w
                                        @ hook_cmds ''fetch_post_cmd'' w2 \<rparr>"
    by blast
next
  assume f: "fetch e n w = Some (Inl err, w')"
  then have a: "fetch_all e n (run_hooks e ''fetch_pre_cmd'' w) = Some (Inl err, w')"
    by (auto simp: fetch_def split: option.splits prod.splits sum.splits)
  then have "shell_log w' = shell_log (run_hooks e ''fetch_pre_cmd'' w)"
    unfolding fetch_all_def by (rule fetch_loop_shell_log)
  then show "shell_log w' = shell_log w @ hook_cmds ''fetch_pre_cmd'' w"
    by (simp add: run_hooks_eq)
qed

subsection \<open>The children of a fetched module\<close>

lemma enqueue_spec:
  "fst (enqueue ms (q, w)) = q @ filter (\<lambda>m. \<not> isfetched (heap w ! m)) ms
   \<and> heap (snd (enqueue ms (q, w))) = heap w
   \<and> fetch_log (snd (enqueue ms (q, w))) = fetch_log w
   \<and> fs (snd (enqueue ms (q, w))) = fs w
   \<and> (\<exists>xs. manifests (snd (enqueue ms (q, w))) = manifests w @ xs
            \<and> set xs \<subseteq> {m \<in> set ms. \<not> isfetched (heap w ! m)})
   \<and> (\<forall>m \<in> set ms. \<not> isfetched (heap w ! m) \<longrightarrow> registered (snd (enqueue ms (q, w))) m)"
proof (induction ms arbitrary: q w)
  case Nil
  show ?case by simp
next
  case (Cons m ms)
  show ?case
  proof (cases "isfetched (heap w ! m)")
    case True
    with Cons [of q w] show ?thesis by auto
  next
    case False
    let ?w1 = "pool_add m w"
    let ?w2 = "snd (enqueue ms (q @ [m], ?w1))"
    note ih = Cons [of "q @ [m]" ?w1]
    from ih obtain xs where xs: "manifests ?w2 = manifests ?w1 @ xs"
      "set xs \<subseteq> {k \<in> set ms. \<not> isfetched (heap w ! k)}" by auto
    from pool_add_manifests [of m w] obtain ys where ys: "manifests ?w1 = manifests w @ ys"
      "set ys \<subseteq> {m}" by auto
    have h2: "heap ?w2 = heap w" using ih by simp
    have "registered ?w2 m"
      using pool_add_registered [of m w] xs(1) ih by (auto intro: registered_mono)
    moreover have "manifests ?w2 = manifests w @ (ys @ xs)" using xs ys by simp
    moreover have "set (ys @ xs) \<subseteq> {k \<in> set (m # ms). \<not> isfetched (heap w ! k)}"
      using xs(2) ys(2) False by auto
    ultimately show ?thesis using False ih by (simp del: append_assoc)
  qed
qed

lemma enqueue_result:
  assumes "enqueue ms (q, w) = (q', w')"
  shows "q' = q @ filter (\<lambda>m. \<not> isfetched (heap w ! m)) ms"
    and "heap w' = heap w" and "fetch_log w' = fetch_log w"
    and "\<exists>xs. manifests w' = manifests w @ xs"
proof -
  from assms have f: "fst (enqueue ms (q, w)) = q'" and s: "snd (enqueue ms (q, w)) = w'"
    by simp_all
  note es = enqueue_spec [of ms q w]
  from es f show "q' = q @ filter (\<lambda>m. \<not> isfetched (heap w ! m)) ms" by (elim conjE) simp
  from es s show "heap w' = heap w" by (elim conjE) simp
  from es s show "fetch_log w' = fetch_log w" by (elim conjE) simp
  from es s show "\<exists>xs. manifests w' = manifests w @ xs" by (elim conjE) auto
qed

lemma init_config_modules: "modules (fst (init_config os d a s)) = modules s"
proof (cases "args_source a = ''local''")
  case True
  then show ?thesis by (simp add: init_config_def Let_def)
next
  case False
  note nl = False
  show ?thesis
  proof (cases "args_source a = ''svn''")
    case True
    obtain u r where sp: "svn_parse os (args_url a) = (u, r)" by (cases "svn_parse os (args_url a)")
    show ?thesis
      using nl True sp
      by (auto simp: init_config_def Let_def basename_def log_parent_path_def
            split: option.splits fsnode.splits list.splits)
  next
    case False
    obtain u b r l where up: "url_parse os (args_url a) = (u, b, r, l)"
      by (cases "url_parse os (args_url a)") auto
    show ?thesis
      using nl False up
      by (auto simp: init_config_def Let_def basename_def log_parent_path_def
            split: option.splits fsnode.splits list.splits)
  qed
qed

lemma new_modules_of_heap:
  "new_modules_of e m ft k us w = (r, w') \<Longrightarrow>
   \<exists>xs. heap w' = heap w @ xs \<and> (\<forall>x \<in> set xs. modules x = [])
        \<and> (\<forall>ids. r = Inr ids \<longrightarrow> (\<forall>i \<in> set ids. i < length (heap w')))"
proof (induction us arbitrary: w r w')
  case Nil
  then show ?case by auto
next
  case (Cons u us)
  obtain child err where ic: "init_config (paths e) (fs w)
             \<lparr> args_parent = Some m, args_url = u, args_source = k,
               args_fetchto = ft \<rparr> ModuleCore_init = (child, err)"
    by (cases "init_config (paths e) (fs w)
             \<lparr> args_parent = Some m, args_url = u, args_source = k,
               args_fetchto = ft \<rparr> ModuleCore_init")
  show ?case
  proof (cases err)
    case (Some x)
    with ic Cons.prems show ?thesis by auto
  next
    case None
    have cm: "modules child = []"
      using init_config_modules [of "paths e" "fs w" "\<lparr> args_parent = Some m, args_url = u,
        args_source = k, args_fetchto = ft \<rparr>" ModuleCore_init] ic
      by (simp add: ModuleCore_init_def)
    obtain r1 w1 where r1: "new_modules_of e m ft k us (w\<lparr> heap := heap w @ [child] \<rparr>) = (r1, w1)"
      by (cases "new_modules_of e m ft k us (w\<lparr> heap := heap w @ [child] \<rparr>)")
    from Cons.IH [OF r1] obtain xs where
      xs: "heap w1 = (heap w @ [child]) @ xs" "\<forall>x \<in> set xs. modules x = []"
          "\<forall>ids. r1 = Inr ids \<longrightarrow> (\<forall>i \<in> set ids. i < length (heap w1))"
      by auto
    have h: "heap w1 = heap w @ (child # xs)" using xs(1) by simp
    have mods: "\<forall>x \<in> set (child # xs). modules x = []" using cm xs(2) by simp
    show ?thesis
    proof (cases r1)
      case (Inl e1)
      with ic None r1 Cons.prems have "w' = w1" "r = Inl e1" by auto
      with h mods show ?thesis by blast
    next
      case (Inr ids)
      with ic None r1 Cons.prems have w': "w' = w1" "r = Inr (length (heap w) # ids)" by auto
      have "\<forall>i \<in> set (length (heap w) # ids). i < length (heap w1)"
        using xs(3) Inr h by simp
      with w' h mods show ?thesis by blast
    qed
  qed
qed

lemma process_manifest_modules_heap:
  "process_manifest_modules e m ft kus w = (r, w') \<Longrightarrow>
   \<exists>xs. heap w' = heap w @ xs \<and> (\<forall>x \<in> set xs. modules x = [])
        \<and> (\<forall>ms. r = Inr ms \<longrightarrow> (\<forall>i \<in> set (concat (map snd ms)). i < length (heap w')))"
proof (induction kus arbitrary: w r w')
  case Nil
  then show ?case by auto
next
  case (Cons ku kus)
  obtain k us where ku: "ku = (k, us)" by (cases ku)
  obtain r1 w1 where r1: "new_modules_of e m ft k us w = (r1, w1)"
    by (cases "new_modules_of e m ft k us w")
  from new_modules_of_heap [OF r1] obtain xs where
    xs: "heap w1 = heap w @ xs" "\<forall>x \<in> set xs. modules x = []"
        "\<forall>ids. r1 = Inr ids \<longrightarrow> (\<forall>i \<in> set ids. i < length (heap w1))"
    by auto
  show ?case
  proof (cases r1)
    case (Inl e1)
    with ku r1 Cons.prems have "w' = w1" "r = Inl e1" by auto
    with xs show ?thesis by blast
  next
    case (Inr ids)
    obtain r2 w2 where r2: "process_manifest_modules e m ft kus w1 = (r2, w2)"
      by (cases "process_manifest_modules e m ft kus w1")
    from Cons.IH [OF r2] obtain ys where
      ys: "heap w2 = heap w1 @ ys" "\<forall>x \<in> set ys. modules x = []"
          "\<forall>ms. r2 = Inr ms \<longrightarrow> (\<forall>i \<in> set (concat (map snd ms)). i < length (heap w2))"
      by auto
    have h: "heap w2 = heap w @ (xs @ ys)" using xs(1) ys(1) by simp
    have mods: "\<forall>x \<in> set (xs @ ys). modules x = []" using xs(2) ys(2) by auto
    show ?thesis
    proof (cases r2)
      case (Inl e2)
      with ku r1 Inr r2 Cons.prems have "w' = w2" "r = Inl e2" by auto
      with h mods show ?thesis by blast
    next
      case ms: (Inr ms)
      with ku r1 Inr r2 Cons.prems have w': "w' = w2" "r = Inr ((k, ids) # ms)" by auto
      have "\<forall>i \<in> set ids. i < length (heap w2)"
        using xs(3) Inr ys(1) by auto
      then have "\<forall>i \<in> set (concat (map snd ((k, ids) # ms))). i < length (heap w2)"
        using ys(3) ms by auto
      with w' h mods show ?thesis by blast
    qed
  qed
qed

lemma process_manifest_action_keeps:
  "isfetched (fst (process_manifest_action s)) = isfetched s
   \<and> modules (fst (process_manifest_action s)) = modules s"
  by (simp add: process_manifest_action_def split: option.splits)

lemma process_manifest_keeps:
  "isfetched (fst (process_manifest h s)) = isfetched s
   \<and> modules (fst (process_manifest h s)) = modules s"
  by (simp add: process_manifest_def process_manifest_universal_def
        process_manifest_action_keeps split: option.splits)

lemma grows_append:
  assumes "m < length h0" and "length h0 = length (heap w)"
    and "\<forall>i < length h0. i \<noteq> m \<longrightarrow> h0 ! i = heap w ! i"
    and "isfetched (h0 ! m) = isfetched (heap w ! m)"
    and "\<forall>x \<in> set xs. modules x = []"
    and "heap w' = h0 @ xs"
  shows "grows m w w'"
  unfolding grows_def
proof (intro conjI allI impI)
  show "length (heap w) \<le> length (heap w')" using assms(2,6) by simp
next
  fix i assume "i < length (heap w)"
  then show "isfetched (heap w' ! i) = isfetched (heap w ! i)"
    using assms by (cases "i = m") (simp_all add: nth_append)
next
  fix i assume i: "i < length (heap w')" "i \<noteq> m"
  show "modules (heap w' ! i) = (if i < length (heap w) then modules (heap w ! i) else [])"
  proof (cases "i < length (heap w)")
    case True
    then show ?thesis using assms i by (simp add: nth_append)
  next
    case False
    then have "heap w' ! i = xs ! (i - length h0)" using assms(2,6) by (simp add: nth_append)
    moreover have "i - length h0 < length xs" using False i(1) assms(2,6) by simp
    ultimately have "heap w' ! i \<in> set xs" by simp
    with assms(5) False show ?thesis by simp
  qed
qed

lemma parse_manifest_heap:
  assumes m: "m < length (heap w)" and pm: "parse_manifest e m w = (r, w')"
  shows "grows m w w' \<and> length (heap w) \<le> length (heap w')
       \<and> (case r of
             Inl err \<Rightarrow> modules (heap w' ! m) = modules (heap w ! m)
           | Inr u \<Rightarrow>
               (\<forall>c \<in> set (submodules w' m). c < length (heap w') \<and> registered w' c))"
proof (cases "path (heap w ! m)")
  case None
  with pm have "w' = w" "r = Inl TypeError" by (simp_all add: parse_manifest_def)
  then show ?thesis by (simp add: grows_def)
next
  case (Some p)
  define self where "self = (heap w ! m)\<lparr> manifest_dict := Some (mf_dict (manifest_at e p)) \<rparr>"
  obtain self' err where ps: "process_manifest (heap w) self = (self', err)"
    by (cases "process_manifest (heap w) self")
  have keep: "isfetched self' = isfetched (heap w ! m)" "modules self' = modules (heap w ! m)"
    using process_manifest_keeps [of "heap w" self] ps by (simp_all add: self_def)
  define h0 where "h0 = (heap w)[m := self']"
  have h0: "m < length h0" "length h0 = length (heap w)"
    "\<forall>i < length h0. i \<noteq> m \<longrightarrow> h0 ! i = heap w ! i"
    "isfetched (h0 ! m) = isfetched (heap w ! m)" "modules (h0 ! m) = modules (heap w ! m)"
    using m keep by (simp_all add: h0_def)
  show ?thesis
  proof (cases err)
    case (Some x)
    with \<open>path (heap w ! m) = Some p\<close> ps pm
    have w': "w' = w\<lparr> heap := h0 \<rparr>" and r: "r = Inl x"
      by (simp_all add: parse_manifest_def Let_def self_def h0_def)
    have "heap w' = h0 @ []" using w' by simp
    with h0 have "grows m w w'" by (intro grows_append [where xs="[]" and ?h0.0=h0]) simp_all
    with w' r h0 show ?thesis by simp
  next
    case None
    define w0 where "w0 = w\<lparr> heap := h0 \<rparr>"
    obtain r1 w1 where r1: "process_manifest_modules e m (mf_fetchto (manifest_at e p))
        (mf_modules (manifest_at e p)) w0 = (r1, w1)"
      by (cases "process_manifest_modules e m (mf_fetchto (manifest_at e p))
        (mf_modules (manifest_at e p)) w0")
    from process_manifest_modules_heap [OF r1] obtain xs where
      xs: "heap w1 = h0 @ xs" "\<forall>x \<in> set xs. modules x = []"
          "\<forall>ms. r1 = Inr ms \<longrightarrow> (\<forall>i \<in> set (concat (map snd ms)). i < length (heap w1))"
      by (auto simp: w0_def)
    show ?thesis
    proof (cases r1)
      case (Inl e1)
      with \<open>path (heap w ! m) = Some p\<close> ps pm None r1
      have w': "w' = w1" and r: "r = Inl e1"
        by (simp_all add: parse_manifest_def Let_def self_def h0_def w0_def)
      have "grows m w w'" using h0 xs(1,2) w' by (intro grows_append [where xs=xs and ?h0.0=h0]) simp_all
      moreover have "modules (heap w' ! m) = modules (heap w ! m)"
        using w' xs(1) h0 by (simp add: nth_append)
      moreover have "length (heap w) \<le> length (heap w')" using w' xs(1) h0 by simp
      ultimately show ?thesis using r by simp
    next
      case (Inr ms)
      define h2 where "h2 = (h0 @ xs)[m := ((h0 @ xs) ! m)\<lparr> modules := ms \<rparr>]"
      from \<open>path (heap w ! m) = Some p\<close> ps pm None r1 Inr xs(1)
      have w': "w' = fold pool_add (concat (map snd ms)) (w1\<lparr> heap := h2 \<rparr>)"
        and r: "r = Inr ()"
        by (simp_all add: parse_manifest_def Let_def self_def h0_def w0_def h2_def)
      have hw: "heap w' = h2"
        unfolding w' using fold_pool_add_frame [of "concat (map snd ms)" "w1\<lparr> heap := h2 \<rparr>"]
        by simp
      have reg: "\<forall>c \<in> set (concat (map snd ms)). registered w' c"
        unfolding w' by (rule fold_pool_add_registered)
      define h0' where "h0' = h0[m := (h0 ! m)\<lparr> modules := ms \<rparr>]"
      have h2: "h2 = h0' @ xs"
        using h0(1) by (simp add: h2_def h0'_def list_update_append nth_append)
      have "grows m w w'"
      proof (intro grows_append [where xs=xs and ?h0.0=h0'])
        show "m < length h0'" using h0 by (simp add: h0'_def)
        show "length h0' = length (heap w)" using h0 by (simp add: h0'_def)
        show "\<forall>i < length h0'. i \<noteq> m \<longrightarrow> h0' ! i = heap w ! i" using h0 by (simp add: h0'_def)
        show "isfetched (h0' ! m) = isfetched (heap w ! m)" using h0 by (simp add: h0'_def)
        show "\<forall>x \<in> set xs. modules x = []" by (rule xs(2))
        show "heap w' = h0' @ xs" using hw h2 by simp
      qed
      moreover have "length (heap w') = length (heap w1)" using hw xs(1) by (simp add: h2_def)
      moreover have "submodules w' m = concat (map snd ms)"
        using hw h0(1) by (simp add: submodules_def h2_def nth_append)
      moreover have "length (heap w) \<le> length (heap w1)" using xs(1) h0 by simp
      ultimately show ?thesis using r xs(3) Inr reg by simp
    qed
  qed
qed

lemma backend_fetch_heap:
  "backend_fetch e k m w = (b, w1) \<Longrightarrow>
   fetch_log w1 = fetch_log w @ [(k, m)]
   \<and> heap w1 = (if b then (heap w)[m := (heap w ! m)\<lparr> isfetched := True \<rparr>] else heap w)"
  by (auto simp: backend_fetch_def Let_def split: if_splits)





subsection \<open>No module object is fetched twice\<close>

lemma wf_world_cong: "heap w' = heap w \<Longrightarrow> wf_world w' = wf_world w"
  by (simp add: wf_world_def submodules_def)

lemma logged_ok_cong:
  "heap w' = heap w \<Longrightarrow> fetch_log w' = fetch_log w \<Longrightarrow> logged_ok w' = logged_ok w"
  by (simp add: logged_ok_def)

lemma wf_grows:
  assumes "wf_world w" and "m < length (heap w)" and "grows m w w'"
    and "\<forall>c \<in> set (submodules w' m). c < length (heap w')"
  shows "wf_world w'"
  unfolding wf_world_def
proof (intro allI impI ballI)
  fix i c
  assume i: "i < length (heap w')" and c: "c \<in> set (submodules w' i)"
  show "c < length (heap w')"
  proof (cases "i = m")
    case True
    with assms(4) c show ?thesis by simp
  next
    case False
    with assms(3) i have md: "modules (heap w' ! i) =
        (if i < length (heap w) then modules (heap w ! i) else [])"
      by (simp add: grows_def)
    show ?thesis
    proof (cases "i < length (heap w)")
      case True
      with md c have "c \<in> set (submodules w i)" by (simp add: submodules_def)
      with assms(1) True have "c < length (heap w)" by (simp add: wf_world_def)
      with assms(3) show ?thesis by (simp add: grows_def)
    next
      case False
      with md c show ?thesis by (simp add: submodules_def)
    qed
  qed
qed

lemma logged_ok_grows:
  assumes "logged_ok w" and "grows m w w'" and "fetch_log w' = fetch_log w"
  shows "logged_ok w'"
  using assms by (auto simp: logged_ok_def grows_def)

lemma fetch_module_inv:
  assumes m: "m < length (heap w)" and wf: "wf_world w" and lg: "logged_ok w"
    and nf: "\<not> isfetched (heap w ! m)" and fm: "fetch_module e m w = (r, w')"
  shows "distinct (map snd (fetch_log w')) \<and> length (heap w) \<le> length (heap w')
       \<and> (\<forall>new. r = Inr new \<longrightarrow>
            wf_world w' \<and> logged_ok w' \<and> (\<forall>c \<in> set new. c < length (heap w')))"
proof (cases "source (heap w ! m) \<noteq> Some ''svn'' \<and> source (heap w ! m) \<noteq> Some ''git''
              \<and> source (heap w ! m) \<noteq> Some ''gitsm''")
  case True
  with fm have "w' = w" "r = Inl AssertionError" by (simp_all add: fetch_module_def Let_def)
  with lg show ?thesis by (simp add: logged_ok_def)
next
  case False
  let ?k = "if source (heap w ! m) = Some ''svn'' then ''svn''
            else if source (heap w ! m) = Some ''git'' then ''git'' else ''gitsm''"
  obtain b w1 where b: "backend_fetch e ?k m w = (b, w1)"
    by (cases "backend_fetch e ?k m w")
  note bh = backend_fetch_heap [OF b]
  have fresh: "m \<notin> set (map snd (fetch_log w))"
    using lg nf by (auto simp: logged_ok_def)
  have d1: "distinct (map snd (fetch_log w1))"
    using bh fresh lg by (simp add: logged_ok_def)
  show ?thesis
  proof (cases b)
    case False
    with \<open>\<not> (source (heap w ! m) \<noteq> Some ''svn'' \<and> source (heap w ! m) \<noteq> Some ''git''
              \<and> source (heap w ! m) \<noteq> Some ''gitsm'')\<close> b fm
    have "w' = w1" "\<exists>x. r = Inl x" by (auto simp: fetch_module_def Let_def)
    with d1 bh False show ?thesis by auto
  next
    case True
    with bh have h1: "heap w1 = (heap w)[m := (heap w ! m)\<lparr> isfetched := True \<rparr>]" by simp
    have m1: "m < length (heap w1)" using h1 m by simp
    have wf1: "wf_world w1"
      using wf h1 m by (auto simp: wf_world_def submodules_def nth_list_update)
    have lg1: "logged_ok w1"
      using lg d1 bh h1 m by (auto simp: logged_ok_def nth_list_update)
    obtain r2 w2 where r2: "parse_manifest e m w1 = (r2, w2)"
      by (cases "parse_manifest e m w1")
    note ph = parse_manifest_heap [OF m1 r2]
    have l2: "fetch_log w2 = fetch_log w1"
      using parse_manifest_frame [of w1 e m] r2 by (simp add: heap_only_def)
    have len: "length (heap w) \<le> length (heap w2)" using ph h1 by simp
    show ?thesis
    proof (cases r2)
      case (Inl x)
      with \<open>\<not> (source (heap w ! m) \<noteq> Some ''svn'' \<and> source (heap w ! m) \<noteq> Some ''git''
              \<and> source (heap w ! m) \<noteq> Some ''gitsm'')\<close> b True r2 fm
      have "w' = w2" "r = Inl x" by (auto simp: fetch_module_def Let_def)
      with d1 l2 len show ?thesis by simp
    next
      case (Inr u)
      with \<open>\<not> (source (heap w ! m) \<noteq> Some ''svn'' \<and> source (heap w ! m) \<noteq> Some ''git''
              \<and> source (heap w ! m) \<noteq> Some ''gitsm'')\<close> b True r2 fm
      have w': "w' = w2" and r: "r = Inr (submodules w2 m)"
        by (auto simp: fetch_module_def Let_def submodules_def)
      from ph Inr have g: "grows m w1 w2"
        and ch: "\<forall>c \<in> set (submodules w2 m). c < length (heap w2)" by auto
      have "wf_world w2" using wf1 m1 g ch by (rule wf_grows)
      moreover have "logged_ok w2" using lg1 g l2 by (rule logged_ok_grows)
      ultimately show ?thesis using w' r ch d1 l2 len by simp
    qed
  qed
qed

lemma enqueue_inv:
  assumes en: "enqueue new (rest, w) = (q', w')"
    and rest: "\<forall>m \<in> set rest. m < length (heap w)"
    and new: "\<forall>c \<in> set new. c < length (heap w)"
    and wf: "wf_world w" and lg: "logged_ok w"
  shows "wf_world w' \<and> logged_ok w' \<and> (\<forall>m \<in> set q'. m < length (heap w'))
         \<and> distinct (map snd (fetch_log w'))"
proof -
  note er = enqueue_result [OF en]
  have "wf_world w'" using wf wf_world_cong [OF er(2)] by simp
  moreover have l: "logged_ok w'" using lg logged_ok_cong [OF er(2,3)] by simp
  moreover have "\<forall>m \<in> set q'. m < length (heap w')"
  proof
    fix m assume "m \<in> set q'"
    then have "m \<in> set rest \<or> m \<in> set new" unfolding er(1) by auto
    then show "m < length (heap w')" using rest new er(2) by auto
  qed
  moreover have "distinct (map snd (fetch_log w'))" using l by (simp add: logged_ok_def)
  ultimately show ?thesis by blast
qed

lemma fetch_step_inv:
  assumes q: "q \<noteq> []" and qv: "\<forall>m \<in> set q. m < length (heap w)"
    and wf: "wf_world w" and lg: "logged_ok w" and st: "fetch_step e q w = (r, w')"
  shows "distinct (map snd (fetch_log w'))
       \<and> (\<forall>q'. r = Inr q' \<longrightarrow>
            wf_world w' \<and> logged_ok w' \<and> (\<forall>m \<in> set q'. m < length (heap w')))"
proof -
  have cur: "last q < length (heap w)" using q qv by simp
  have rest: "\<forall>m \<in> set (butlast q). m < length (heap w)"
    using qv by (auto dest: in_set_butlastD)
  show ?thesis
  proof (cases "isfetched (heap w ! last q)")
    case True
    obtain q' w2 where en: "enqueue (submodules w (last q)) (butlast q, w) = (q', w2)"
      by (cases "enqueue (submodules w (last q)) (butlast q, w)")
    have "fetch_step e q w = (Inr q', w2)"
      using True en by (simp add: fetch_step_def Let_def)
    with st have r: "r = Inr q'" and w': "w' = w2" by simp_all
    have nv: "\<forall>c \<in> set (submodules w (last q)). c < length (heap w)"
      using wf cur by (simp add: wf_world_def)
    from enqueue_inv [OF en rest nv wf lg] show ?thesis unfolding r w' by blast
  next
    case False
    obtain r1 w1 where fm: "fetch_module e (last q) w = (r1, w1)"
      by (cases "fetch_module e (last q) w")
    note fi = fetch_module_inv [OF cur wf lg False fm]
    show ?thesis
    proof (cases r1)
      case (Inl x)
      have "fetch_step e q w = (Inl x, w1)"
        using False fm Inl by (simp add: fetch_step_def Let_def)
      with st have "w' = w1" "r = Inl x" by simp_all
      with fi show ?thesis by simp
    next
      case (Inr new)
      obtain q' w2 where en: "enqueue new (butlast q, w1) = (q', w2)"
        by (cases "enqueue new (butlast q, w1)")
      have "fetch_step e q w = (Inr q', w2)"
        using False fm Inr en by (simp add: fetch_step_def Let_def)
      with st have r: "r = Inr q'" and w': "w' = w2" by simp_all
      from fi Inr have i1: "wf_world w1" "logged_ok w1" "\<forall>c \<in> set new. c < length (heap w1)"
        and len: "length (heap w) \<le> length (heap w1)" by simp_all
      have rest1: "\<forall>m \<in> set (butlast q). m < length (heap w1)"
        using rest len by auto
      from enqueue_inv [OF en rest1 i1(3) i1(1) i1(2)] show ?thesis unfolding r w' by blast
    qed
  qed
qed

lemma fetch_loop_inv:
  "fetch_loop e n q w = Some (r, w') \<Longrightarrow> \<forall>m \<in> set q. m < length (heap w) \<Longrightarrow>
   wf_world w \<Longrightarrow> logged_ok w \<Longrightarrow> distinct (map snd (fetch_log w'))"
proof (induction e n q w rule: fetch_loop.induct)
  case (1 e n w)
  then show ?case by (simp add: logged_ok_def)
next
  case (2 e m q w)
  then show ?case by simp
next
  case (3 e n m q w)
  obtain r1 w1 where s: "fetch_step e (m # q) w = (r1, w1)"
    by (cases "fetch_step e (m # q) w")
  have ne: "m # q \<noteq> []" by simp
  note si = fetch_step_inv [OF ne "3.prems"(2,3,4) s]
  show ?case
  proof (cases r1)
    case (Inl err)
    with "3.prems"(1) s have "w' = w1" by simp
    with si show ?thesis by simp
  next
    case (Inr q')
    with "3.prems"(1) s have l: "fetch_loop e n q' w1 = Some (r, w')" by simp
    from si Inr have "\<forall>m \<in> set q'. m < length (heap w1)" "wf_world w1" "logged_ok w1"
      by simp_all
    with "3.IH" [OF s [symmetric] Inr l] show ?thesis by simp
  qed
qed

lemma fetch_passes_inv:
  "\<forall>m \<in> set q. m < length (heap w) \<Longrightarrow> wf_world w \<Longrightarrow> logged_ok w \<Longrightarrow>
   distinct (map snd (fetch_log (snd (fetch_passes e n q w))))"
proof (induction e n q w rule: fetch_passes.induct)
  case (1 e n w)
  then show ?case by (simp add: logged_ok_def)
next
  case (2 e m q w)
  then show ?case by (simp add: logged_ok_def)
next
  case (3 e n m q w)
  obtain r1 w1 where s: "fetch_step e (m # q) w = (r1, w1)"
    by (cases "fetch_step e (m # q) w")
  have ne: "m # q \<noteq> []" by simp
  note si = fetch_step_inv [OF ne "3.prems"(1,2,3) s]
  show ?case
  proof (cases r1)
    case (Inl err)
    with s si show ?thesis by simp
  next
    case (Inr q')
    from si Inr have "\<forall>m \<in> set q'. m < length (heap w1)" "wf_world w1" "logged_ok w1"
      by simp_all
    with "3.IH" [OF s [symmetric] Inr] s Inr show ?thesis by simp
  qed
qed

text \<open>
  Claim C1, as amended. The guard of the fetch loop is the \<open>isfetched\<close> flag of the
  module object popped from the queue, not its resolved path. Started with an empty log
  on a heap whose addresses are valid, a run of \<open>_fetch_all\<close> never passes one module
  object to a backend twice: not after any number of passes of the loop, and not when
  the run has returned or raised.
\<close>

theorem fetch_at_most_once_per_object:
  assumes "wf_world w" and "\<forall>m \<in> set (manifests w). m < length (heap w)"
    and "fetch_log w = []"
  shows "distinct (map snd (fetch_log (snd (fetch_passes e n (manifests w) w))))
       \<and> (\<forall>r w'. fetch_all e n w = Some (r, w') \<longrightarrow> distinct (map snd (fetch_log w')))"
proof -
  have l: "logged_ok w" using assms(3) by (simp add: logged_ok_def)
  have "distinct (map snd (fetch_log (snd (fetch_passes e n (manifests w) w))))"
    using assms(2,1) l by (rule fetch_passes_inv)
  moreover have "\<forall>r w'. fetch_all e n w = Some (r, w') \<longrightarrow> distinct (map snd (fetch_log w'))"
    unfolding fetch_all_def using assms(2,1) l by (blast intro: fetch_loop_inv)
  ultimately show ?thesis ..
qed

subsection \<open>Instances\<close>

text \<open>
  Claim C1 as stated fails. In the diamond \<open>diamond_world\<close> the modules \<open>a\<close> and \<open>b\<close>
  are fetched and both declare \<open>c\<close>, which is not on disk. The object of \<open>c\<close> held by
  \<open>a\<close> is fetched from the initial queue; the object held by \<open>b\<close> is discovered, still
  carries \<open>isfetched = False\<close>, is queued and fetched as well: the run completes with
  two backend calls for the path \<open>/work/ip/c\<close>.
\<close>

theorem diamond_fetched_twice:
  "map_option fst (fetch_all demo_collab 5 diamond_world) = Some (Inr ())
   \<and> map_option (fetched_paths \<circ> snd) (fetch_all demo_collab 5 diamond_world)
       = Some [Some ''/work/ip/c'', Some ''/work/ip/c'']"
  by code_simp

text \<open>In the same diamond no object is fetched twice: the two calls are for the two
  objects 3 and 4.\<close>

theorem fetch_at_most_once_per_object_witness:
  "wf_world diamond_world
   \<and> list_all (\<lambda>m. m < length (heap diamond_world)) (manifests diamond_world)
   \<and> fetch_log diamond_world = []
   \<and> fetch_all demo_collab 5 diamond_world \<noteq> None
   \<and> distinct (map snd (fetch_log (snd (the (fetch_all demo_collab 5 diamond_world)))))
   \<and> distinct (map snd (fetch_log (snd (fetch_passes demo_collab 2
         (manifests diamond_world) diamond_world))))"
proof -
  have a: "wf_world diamond_world" by code_simp
  have b: "list_all (\<lambda>m. m < length (heap diamond_world)) (manifests diamond_world)"
    by code_simp
  have c: "fetch_log diamond_world = []" by code_simp
  have d: "fetch_all demo_collab 5 diamond_world \<noteq> None" by code_simp
  then have e: "fetch_all demo_collab 5 diamond_world
      = Some (fst (the (fetch_all demo_collab 5 diamond_world)),
              snd (the (fetch_all demo_collab 5 diamond_world)))"
    by (cases "fetch_all demo_collab 5 diamond_world") auto
  from b have b': "\<forall>m \<in> set (manifests diamond_world). m < length (heap diamond_world)"
    by (simp add: list_all_iff)
  note t = fetch_at_most_once_per_object [OF a b' c]
  from t [of demo_collab 5] e
  have "distinct (map snd (fetch_log (snd (the (fetch_all demo_collab 5 diamond_world)))))"
    by blast
  moreover from t [of demo_collab 2]
  have "distinct (map snd (fetch_log (snd (fetch_passes demo_collab 2
         (manifests diamond_world) diamond_world))))"
    by blast
  ultimately show ?thesis using a b c d by simp
qed


text \<open>An instance: the unreachable module of \<open>down_world\<close>
  is popped first and ends the loop.\<close>

theorem fetch_failure_is_fatal_witness:
  "[0, 1, 2, 3::nat] \<noteq> [] \<and> \<not> isfetched (heap down_world ! last [0, 1, 2, 3])
   \<and> source (heap down_world ! last [0, 1, 2, 3]) = Some ''git''
   \<and> \<not> fetch_ok demo_collab ''git'' (heap down_world ! last [0, 1, 2, 3])
   \<and> fetch_loop demo_collab (Suc 0) [0, 1, 2, 3] down_world =
       Some (Inl (Exception [''Unable to fetch module %s'', ''git://host/down'']),
             down_world\<lparr> fetch_log := [(''git'', 3)] \<rparr>)"
proof -
  have a: "[0, 1, 2, 3::nat] \<noteq> []" by simp
  have b: "\<not> isfetched (heap down_world ! last [0, 1, 2, 3])" by code_simp
  have c: "source (heap down_world ! last [0, 1, 2, 3]) = Some ''git''" by code_simp
  have d: "''git'' = ''svn'' \<or> ''git'' = ''git'' \<or> ''git'' = ''gitsm''" by simp
  have e: "\<not> fetch_ok demo_collab ''git'' (heap down_world ! last [0, 1, 2, 3])" by code_simp
  have u: "str_opt (url (heap down_world ! last [0, 1, 2, 3])) = ''git://host/down''"
    by code_simp
  have l: "fetch_log down_world = []" by code_simp
  from fetch_failure_is_fatal [OF a b c d e, of 0] u l a b c e show ?thesis by simp
qed

text \<open>
  Claim C6 as stated fails. In \<open>nested_world\<close> the local module \<open>sub\<close> (object 2) lives
  inside the checkout of the fetched git module \<open>a\<close> (object 1). It is outside the set to
  remove, and only \<open>a\<close> is removed, but the directory of \<open>sub\<close> is gone with it.
\<close>

theorem nested_local_module_removed:
  "manifests nested_world = [0, 1, 2]
   \<and> source (heap nested_world ! 2) = Some ''local''
   \<and> path (heap nested_world ! 2) = Some ''/work/ip/a/sub''
   \<and> \<not> removable nested_world 2
   \<and> fs nested_world ''/work/ip/a/sub'' = Some (Directory [''Manifest.py'', ''sub.vhd''])
   \<and> fst (clean nested_world) = None
   \<and> removed (snd (clean nested_world)) = [1]
   \<and> fs (snd (clean nested_world)) ''/work/ip/a/sub'' = None"
  by code_simp

text \<open>An instance: in \<open>demo_world\<close> the module \<open>b\<close> is removed before \<open>a\<close>, their
  directories are gone, and the local top module is left alone.\<close>

theorem clean_reverse_discovery_order_witness:
  "list_all (\<lambda>m. url (heap demo_world ! m) \<noteq> None \<and> path (heap demo_world ! m) \<noteq> None)
     (manifests demo_world)
   \<and> fst (clean demo_world) = None
   \<and> removed (snd (clean demo_world)) = [2, 1]
   \<and> \<not> removable demo_world 0
   \<and> fs (snd (clean demo_world)) ''/work/ip/a'' = None
   \<and> fs (snd (clean demo_world)) ''/work/ip/b'' = None
   \<and> fs (snd (clean demo_world)) ''top'' = Some (Directory [''Manifest.py''])"
proof -
  have a: "list_all (\<lambda>m. url (heap demo_world ! m) \<noteq> None \<and> path (heap demo_world ! m) \<noteq> None)
     (manifests demo_world)" by code_simp
  then have a': "\<forall>m \<in> set (manifests demo_world). removable demo_world m \<longrightarrow>
      url (heap demo_world ! m) \<noteq> None \<and> path (heap demo_world ! m) \<noteq> None"
    by (simp add: list_all_iff)
  have b: "removed demo_world @ rev (filter (removable demo_world) (manifests demo_world)) = [2, 1]"
    by code_simp
  have c: "\<not> removable demo_world 0" by code_simp
  have t: "in_removed_tree demo_world ''/work/ip/a''" "in_removed_tree demo_world ''/work/ip/b''"
    "\<not> in_removed_tree demo_world ''top''"
    "fs demo_world ''top'' = Some (Directory [''Manifest.py''])"
    by code_simp+
  note th = clean_reverse_discovery_order [OF a']
  from th have f: "fs (snd (clean demo_world))
      = (\<lambda>q. if in_removed_tree demo_world q then None else fs demo_world q)"
    by blast
  have "fs (snd (clean demo_world)) ''/work/ip/a'' = None"
    "fs (snd (clean demo_world)) ''/work/ip/b'' = None"
    "fs (snd (clean demo_world)) ''top'' = Some (Directory [''Manifest.py''])"
    unfolding f using t by simp_all
  with th a b c show ?thesis by simp
qed

text \<open>An instance: the post hook \<open>false\<close> exits with
  status 1 and the fetch returns normally all the same; when the fetch loop raises, only
  the pre hook was run.\<close>

theorem fetch_hooks_fire_and_forget_witness:
  "map_option fst (fetch demo_collab 3 demo_world) = Some (Inr ())
   \<and> map_option (shell_log \<circ> snd) (fetch demo_collab 3 demo_world)
       = Some [''make prepare'', ''false'']
   \<and> fetch (demo_collab\<lparr> exit_status := (\<lambda>c. 0) \<rparr>) 3 demo_world = fetch demo_collab 3 demo_world
   \<and> map_option fst (fetch demo_collab 1 down_world)
       = Some (Inl (Exception [''Unable to fetch module %s'', ''git://host/down'']))
   \<and> map_option (shell_log \<circ> snd) (fetch demo_collab 1 down_world) = Some [''make prepare'']"
proof -
  let ?X = "fetch demo_collab 3 demo_world"
  let ?Y = "fetch demo_collab 1 down_world"
  let ?err = "Exception [''Unable to fetch module %s'', ''git://host/down'']"
  have a: "map_option fst ?X = Some (Inr ())" by code_simp
  then have a': "?X = Some (Inr (), snd (the ?X))" by (cases ?X) auto
  have b: "map_option fst ?Y = Some (Inl ?err)" by code_simp
  then have b': "?Y = Some (Inl ?err, snd (the ?Y))" by (cases ?Y) auto
  have h: "shell_log demo_world @ hook_cmds ''fetch_pre_cmd'' demo_world = [''make prepare'']"
    "shell_log down_world @ hook_cmds ''fetch_pre_cmd'' down_world = [''make prepare'']"
    by code_simp+
  have p: "map_option (shell_log \<circ> snd) ?X = Some [''make prepare'', ''false'']" by code_simp
  note t1 = fetch_hooks_fire_and_forget [where e=demo_collab and n=3 and w=demo_world
      and s="\<lambda>c. 0" and u="()" and w'="snd (the ?X)" and key="''fetch_pre_cmd''"]
  note t2 = fetch_hooks_fire_and_forget [where e=demo_collab and n=1 and w=down_world
      and err="?err" and w'="snd (the ?Y)"]
  from t1 have s: "fetch (demo_collab\<lparr> exit_status := (\<lambda>c. 0) \<rparr>) 3 demo_world = ?X" by simp
  from t2 b' h have q: "shell_log (snd (the ?Y)) = [''make prepare'']" by simp
  with b' have "map_option (shell_log \<circ> snd) ?Y = Some [''make prepare'']"
    by (cases ?Y) auto
  with a b p s show ?thesis by simp
qed


end
